theory Spec2Isabelle
  imports Complex_Main
begin

section \<open>Data exchanged with the server\<close>

text \<open>
  The client is event driven: every handler runs to completion, and an \<open>async\<close> function
  is suspended only while it awaits the network. A network answer is therefore an event
  of its own. \<open>Rejected\<close> is a \<open>fetch\<close> whose promise rejects; \<open>Replied ok body\<close> is an
  answer with \<open>res.ok = ok\<close> whose body parses to \<open>body\<close> (\<open>None\<close>: malformed JSON, so
  \<open>res.json()\<close> rejects).
\<close>

datatype 'a response = Rejected | Replied bool "'a option"

datatype js_error = NetworkError | HttpError | ParseError | TypeError

text \<open>
  A story summary, as the server sends it on the story list and (with \<open>kind\<close>) on the
  blindspots page. Each field is absent (\<open>None\<close>: \<open>undefined\<close> or \<open>null\<close>) or present
  with the type of the interface.
\<close>

datatype bar_json = Bar "real option" "real option" "real option" "real option"

record story =
  story_id :: "string option"
  kind :: "string option"
  title :: "string option"
  coverage :: "int option"
  lean :: "string option"
  bias_score :: "real option"
  bias_bar :: "bar_json option"

text \<open>
  The body of \<open>/api/stories\<close>: the JSON value \<open>null\<close> (reading a property of it throws),
  or a value whose \<open>total\<close> and \<open>items\<close> are each absent (\<open>None\<close>) or present with the
  type of the interface.
\<close>

datatype stories_json = JsonNull | JsonPage "int option" "story list option"

datatype refresh_json = RefreshNull | RefreshObj bool "int option" "int option"

datatype meta_json = MetaNull | MetaObj "string option"

datatype categories_json = CategoriesNull | CategoriesObj "string list option"


text \<open>A trending topic, with the fields its card reads, each absent or of its type.\<close>

record topic =
  keyword :: "string option"
  heat_score :: "real option"
  count :: "int option"
  sources :: "int option"
  velocity :: "real option"
  sample_headlines :: "string list option"


section \<open>The fetch functions\<close>

text \<open>
  \<open>await fetch(url)\<close>, the optional \<open>if (!res.ok) throw\<close>, then \<open>res.json()\<close>:
  \<open>Inl\<close> is a rejected promise.
\<close>

definition fetch_json :: "bool \<Rightarrow> 'a response \<Rightarrow> js_error + 'a" where
  "fetch_json check_ok r =
     (case r of
        Rejected \<Rightarrow> Inl NetworkError
      | Replied ok body \<Rightarrow>
          if check_ok \<and> \<not> ok then Inl HttpError
          else (case body of None \<Rightarrow> Inl ParseError | Some d \<Rightarrow> Inr d))"

definition stories_fallback :: stories_json where
  "stories_fallback = JsonPage (Some 0) (Some [])"

definition fetchStories :: "stories_json response \<Rightarrow> js_error + stories_json" where
  "fetchStories r =
     (case fetch_json True r of
        Inl err \<Rightarrow> Inr stories_fallback
      | Inr d \<Rightarrow> Inr d)"

definition meta_fallback :: meta_json where
  "meta_fallback = MetaObj None"

definition fetchMeta :: "meta_json response \<Rightarrow> js_error + meta_json" where
  "fetchMeta r =
     (case fetch_json True r of
        Inl err \<Rightarrow> Inr meta_fallback
      | Inr d \<Rightarrow> Inr d)"

text \<open>
  \<open>fetchCategories\<close> returns \<open>data.categories || ['All']\<close>; on the JSON value \<open>null\<close>
  the property read throws inside the \<open>try\<close>.
\<close>

definition fetchCategories :: "categories_json response \<Rightarrow> js_error + string list" where
  "fetchCategories r =
     (case fetch_json True r of
        Inl err \<Rightarrow> Inr [''All'']
      | Inr CategoriesNull \<Rightarrow> Inr [''All'']
      | Inr (CategoriesObj None) \<Rightarrow> Inr [''All'']
      | Inr (CategoriesObj (Some cs)) \<Rightarrow> Inr cs)"





section \<open>The story list page\<close>

record query_state =
  category :: string
  query :: string
  stories :: "story list"
  offset :: nat
  limit :: nat
  hasMore :: bool
  loading :: bool
  categories :: "string list"

text \<open>What \<open>#grid\<close> shows; \<open>GridCards\<close> is one card per story, in order.\<close>

datatype grid_view =
    GridBlank
  | GridLoading
  | GridEmpty
  | GridCards "story list"
  | GridFailed js_error

text \<open>The query string of one \<open>/api/stories\<close> request.\<close>

record request =
  req_category :: string
  req_q :: string
  req_limit :: nat
  req_offset :: nat

text \<open>
  Who awaits a \<open>loadStories()\<close> or \<open>updateMeta()\<close> promise: nobody (click handlers and
  the search timer call without \<open>await\<close>), \<open>init\<close>, or \<open>refreshData\<close> holding the counts
  of its answer.
\<close>

datatype caller = Detached | FromInit | FromRefresh "int option" "int option"

datatype toast_msg = ToastAdded "int option" "int option" | ToastRefreshFailed

text \<open>
  The page: the global \<open>state\<close>, the parts of the document the handlers write, the
  pending network requests and timers, and a clock in milliseconds. \<open>issued\<close> records
  every \<open>/api/stories\<close> request ever sent.
\<close>

record world =
  state :: query_state
  grid :: grid_view
  more_shown :: bool
  statStories :: "int option"
  statCat :: "string option"
  updatedText :: "string option"
  q_value :: string
  searchTimeout :: "nat option"
  clock :: nat
  pending :: "(request \<times> caller) list"
  issued :: "request list"
  awaiting_categories :: bool
  refresh_disabled :: bool
  refresh_pending :: bool
  meta_pending :: "caller list"
  toast :: "(toast_msg \<times> nat) option"

definition or_default :: "string \<Rightarrow> string \<Rightarrow> string" where
  "or_default s d = (if s = [] then d else s)"

definition items_or_empty :: "story list option \<Rightarrow> story list" where
  "items_or_empty i = (case i of None \<Rightarrow> [] | Some xs \<Rightarrow> xs)"

definition total_or_zero :: "int option \<Rightarrow> int" where
  "total_or_zero t = (case t of None \<Rightarrow> 0 | Some n \<Rightarrow> n)"

definition stories_request :: "query_state \<Rightarrow> request" where
  "stories_request s =
     \<lparr>req_category = or_default (category s) ''All'', req_q = or_default (query s) [],
      req_limit = limit s, req_offset = offset s\<rparr>"

definition showToast :: "toast_msg \<Rightarrow> world \<Rightarrow> world" where
  "showToast m w = w\<lparr>toast := Some (m, clock w + 3000 + 300)\<rparr>"

definition refresh_finally :: "world \<Rightarrow> world" where
  "refresh_finally w = w\<lparr>refresh_disabled := False\<rparr>"

text \<open>\<open>updateMeta()\<close> up to its \<open>await fetchMeta()\<close>.\<close>

definition updateMeta_enter :: "caller \<Rightarrow> world \<Rightarrow> world" where
  "updateMeta_enter c w = w\<lparr>meta_pending := meta_pending w @ [c]\<rparr>"

text \<open>What the awaiting function does once \<open>await loadStories()\<close> returns.\<close>

definition after_loadStories :: "caller \<Rightarrow> world \<Rightarrow> world" where
  "after_loadStories c w = (case c of Detached \<Rightarrow> w | _ \<Rightarrow> updateMeta_enter c w)"

text \<open>What the awaiting function does once \<open>await updateMeta()\<close> returns.\<close>

definition after_updateMeta :: "caller \<Rightarrow> world \<Rightarrow> world" where
  "after_updateMeta c w =
     (case c of
        FromRefresh a s \<Rightarrow> refresh_finally (showToast (ToastAdded a s) w)
      | _ \<Rightarrow> w)"

definition renderStories :: "world \<Rightarrow> world" where
  "renderStories w =
     (if stories (state w) = [] \<and> \<not> loading (state w) then w\<lparr>grid := GridEmpty\<rparr>
      else w\<lparr>grid := GridCards (stories (state w))\<rparr>)"

definition updateStatStories :: "int \<Rightarrow> world \<Rightarrow> world" where
  "updateStatStories n w = w\<lparr>statStories := Some n\<rparr>"

definition updateStatCategory :: "world \<Rightarrow> world" where
  "updateStatCategory w = w\<lparr>statCat := Some (category (state w))\<rparr>"

definition updateMoreButton :: "world \<Rightarrow> world" where
  "updateMoreButton w = w\<lparr>more_shown := hasMore (state w)\<rparr>"

text \<open>
  \<open>loadStories()\<close> from its entry to \<open>await fetchStories(...)\<close>: the guard, the flag, the
  spinner at offset 0, and the request built from the state of that moment. A call
  dropped by the guard returns at once, so its awaiting function goes on.
\<close>

definition loadStories_enter :: "caller \<Rightarrow> world \<Rightarrow> world" where
  "loadStories_enter c w =
     (if loading (state w) then after_loadStories c w
      else
        let w1 = w\<lparr>state := (state w)\<lparr>loading := True\<rparr>\<rparr>;
            w2 = (if offset (state w1) = 0 then w1\<lparr>grid := GridLoading\<rparr> else w1);
            r = stories_request (state w2)
        in w2\<lparr>pending := pending w2 @ [(r, c)], issued := issued w2 @ [r]\<rparr>)"

text \<open>The body of the \<open>try\<close> after the \<open>await\<close>; \<open>Inl\<close> is what reaches the \<open>catch\<close>.\<close>

definition loadStories_try :: "js_error + stories_json \<Rightarrow> world \<Rightarrow> js_error + world" where
  "loadStories_try res w =
     (case res of
        Inl err \<Rightarrow> Inl err
      | Inr JsonNull \<Rightarrow> Inl TypeError
      | Inr (JsonPage tot its) \<Rightarrow>
          let s = state w;
              s1 = s\<lparr>stories := (if offset s = 0 then items_or_empty its
                                  else stories s @ items_or_empty its)\<rparr>;
              s2 = s1\<lparr>hasMore := (int (length (stories s1)) < total_or_zero tot)\<rparr>
          in Inr (updateMoreButton
                   (updateStatStories (total_or_zero tot)
                     (renderStories (w\<lparr>state := s2\<rparr>)))))"

text \<open>The rest of \<open>loadStories()\<close>: \<open>try\<close>, \<open>catch\<close>, \<open>finally\<close>, then the awaiting function.\<close>

definition loadStories_resume :: "caller \<Rightarrow> js_error + stories_json \<Rightarrow> world \<Rightarrow> world" where
  "loadStories_resume c res w =
     (let w1 = (case loadStories_try res w of
                  Inl err \<Rightarrow> w\<lparr>grid := GridFailed err\<rparr>
                | Inr w' \<Rightarrow> w');
          w2 = w1\<lparr>state := (state w1)\<lparr>loading := False\<rparr>\<rparr>
      in after_loadStories c w2)"

definition loadMore :: "world \<Rightarrow> world" where
  "loadMore w =
     loadStories_enter Detached
       (w\<lparr>state := (state w)\<lparr>offset := offset (state w) + limit (state w)\<rparr>\<rparr>)"

text \<open>
  The click listener that \<open>renderCategories\<close> puts on a category button; \<open>newCat\<close> is
  the button's \<open>el.dataset.cat\<close>.
\<close>

definition category_click :: "string \<Rightarrow> world \<Rightarrow> world" where
  "category_click newCat w =
     (if newCat = category (state w) then w
      else updateStatCategory
             (loadStories_enter Detached
               (w\<lparr>state := (state w)\<lparr>category := newCat, offset := 0, stories := []\<rparr>\<rparr>)))"

definition handleSearch :: "world \<Rightarrow> world" where
  "handleSearch w = w\<lparr>searchTimeout := Some (clock w + 300)\<rparr>"

text \<open>The callback of the search timer; it reads the input's text when it runs.\<close>

definition search_timer :: "world \<Rightarrow> world" where
  "search_timer w =
     loadStories_enter Detached
       (w\<lparr>state := (state w)\<lparr>query := q_value w, offset := 0, stories := []\<rparr>\<rparr>)"

definition clearSearch :: "world \<Rightarrow> world" where
  "clearSearch w =
     loadStories_enter Detached
       (w\<lparr>q_value := [], state := (state w)\<lparr>query := [], offset := 0, stories := []\<rparr>\<rparr>)"

text \<open>\<open>refreshData()\<close> up to \<open>await fetch('/api/refresh')\<close>.\<close>

definition refreshData_enter :: "world \<Rightarrow> world" where
  "refreshData_enter w = w\<lparr>refresh_disabled := True, refresh_pending := True\<rparr>"

definition refresh_catch :: "world \<Rightarrow> world" where
  "refresh_catch w = refresh_finally (showToast ToastRefreshFailed w)"

text \<open>
  \<open>refreshData()\<close> from the answer of the POST on. The status of the answer is not
  looked at; a body that is not JSON, the value \<open>null\<close>, or a falsy \<open>ok\<close> end in the
  \<open>catch\<close>.
\<close>

definition refreshData_resume :: "refresh_json response \<Rightarrow> world \<Rightarrow> world" where
  "refreshData_resume r w =
     (case fetch_json False r of
        Inl err \<Rightarrow> refresh_catch w
      | Inr RefreshNull \<Rightarrow> refresh_catch w
      | Inr (RefreshObj ok added n) \<Rightarrow>
          if ok then
            loadStories_enter (FromRefresh added n)
              (w\<lparr>state := (state w)\<lparr>offset := 0, stories := []\<rparr>\<rparr>)
          else refresh_catch w)"

text \<open>
  \<open>updateMeta()\<close> after \<open>await fetchMeta()\<close>, then the awaiting function. The text is
  the time of the last update, or \<open>None\<close> for "Not updated yet"; on the value \<open>null\<close> the
  property read throws and the \<open>catch\<close> leaves the text alone.
\<close>

definition updateMeta_resume :: "caller \<Rightarrow> meta_json response \<Rightarrow> world \<Rightarrow> world" where
  "updateMeta_resume c r w =
     (let w1 = (case fetchMeta r of
                  Inr (MetaObj (Some t)) \<Rightarrow>
                    w\<lparr>updatedText := (if t = [] then None else Some t)\<rparr>
                | Inr (MetaObj None) \<Rightarrow> w\<lparr>updatedText := None\<rparr>
                | _ \<Rightarrow> w)
      in after_updateMeta c w1)"

text \<open>\<open>init()\<close> after \<open>await fetchCategories()\<close>.\<close>

definition init_resume :: "categories_json response \<Rightarrow> world \<Rightarrow> world" where
  "init_resume r w =
     (case fetchCategories r of
        Inl err \<Rightarrow> w
      | Inr cs \<Rightarrow> loadStories_enter FromInit (w\<lparr>state := (state w)\<lparr>categories := cs\<rparr>\<rparr>))"

definition remove_nth :: "nat \<Rightarrow> 'a list \<Rightarrow> 'a list" where
  "remove_nth k xs = take k xs @ drop (Suc k) xs"

text \<open>Time passing: the search timer and the toast's removal run when they are due.\<close>

definition elapse :: "nat \<Rightarrow> world \<Rightarrow> world" where
  "elapse d w =
     (let t = clock w + d;
          w1 = w\<lparr>clock := t\<rparr>;
          w2 = (case searchTimeout w1 of
                  None \<Rightarrow> w1
                | Some due \<Rightarrow>
                    if due \<le> t then search_timer (w1\<lparr>searchTimeout := None\<rparr>) else w1)
      in (case toast w2 of
            None \<Rightarrow> w2
          | Some (m, due) \<Rightarrow> if due \<le> t then w2\<lparr>toast := None\<rparr> else w2))"

text \<open>
  What can happen to the page. A click reaches a handler only if the control can be
  clicked: a category button exists for each loaded category, the "more" button may be
  hidden, the refresh button may be disabled, the retry button exists in the failure
  view only. An answer is indexed by the position of its request among the pending ones.

  \<open>ClickCategory cat newCat\<close> is a click on the button that \<open>renderCategories\<close> made for
  the category \<open>cat\<close>; \<open>newCat\<close> is what the browser gives as \<open>el.dataset.cat\<close> for that
  button. The name is written into the markup unescaped and read back from the parsed
  attribute, so the two differ for a name with a character reference or a double quote
  (\<open>A&amp;B\<close> is read back as \<open>A&B\<close>). The parsing is the browser's: the event carries
  the value read back, and nothing here relates it to \<open>cat\<close>.
\<close>

datatype event =
    CategoriesResponse "categories_json response"
  | ClickCategory string string
  | ClickMore
  | InputSearch string
  | ClickClear
  | ClickRefresh
  | ClickRetry
  | StoriesResponse nat "stories_json response"
  | RefreshResponse "refresh_json response"
  | MetaResponse nat "meta_json response"
  | Elapse nat

fun step :: "event \<Rightarrow> world \<Rightarrow> world" where
  "step (CategoriesResponse r) w =
     (if awaiting_categories w then init_resume r (w\<lparr>awaiting_categories := False\<rparr>) else w)"
| "step (ClickCategory cat newCat) w =
     (if cat \<in> set (categories (state w)) then category_click newCat w else w)"
| "step ClickMore w = (if more_shown w then loadMore w else w)"
| "step (InputSearch text) w = handleSearch (w\<lparr>q_value := text\<rparr>)"
| "step ClickClear w = clearSearch w"
| "step ClickRefresh w = (if refresh_disabled w then w else refreshData_enter w)"
| "step ClickRetry w =
     (case grid w of GridFailed err \<Rightarrow> loadStories_enter Detached w | _ \<Rightarrow> w)"
| "step (StoriesResponse k r) w =
     (if k < length (pending w) then
        loadStories_resume (snd (pending w ! k)) (fetchStories r)
          (w\<lparr>pending := remove_nth k (pending w)\<rparr>)
      else w)"
| "step (RefreshResponse r) w =
     (if refresh_pending w then refreshData_resume r (w\<lparr>refresh_pending := False\<rparr>) else w)"
| "step (MetaResponse k r) w =
     (if k < length (meta_pending w) then
        updateMeta_resume (meta_pending w ! k) r
          (w\<lparr>meta_pending := remove_nth k (meta_pending w)\<rparr>)
      else w)"
| "step (Elapse d) w = elapse d w"

fun run :: "event list \<Rightarrow> world \<Rightarrow> world" where
  "run [] w = w"
| "run (e # es) w = run es (step e w)"

text \<open>
  The page when \<open>init()\<close> waits for the categories: the declared \<open>state\<close>, nothing
  pending, the listeners installed.
\<close>

definition state0 :: query_state where
  "state0 =
     \<lparr>category = ''All'', query = [], stories = [], offset = 0, limit = 30,
      hasMore = True, loading = False, categories = []\<rparr>"

definition world0 :: world where
  "world0 =
     \<lparr>state = state0, grid = GridBlank, more_shown = True, statStories = None,
      statCat = None, updatedText = None, q_value = [], searchTimeout = None, clock = 0,
      pending = [], issued = [], awaiting_categories = True, refresh_disabled = False,
      refresh_pending = False, meta_pending = [], toast = None\<rparr>"

text \<open>The flag and the requests in flight agree: one request while loading, none otherwise.\<close>

definition one_flight :: "world \<Rightarrow> bool" where
  "one_flight w = (length (pending w) = (if loading (state w) then 1 else 0))"

text \<open>The "more" button is shown only while more stories are announced.\<close>

definition more_gate :: "world \<Rightarrow> bool" where
  "more_gate w = (more_shown w \<longrightarrow> hasMore (state w))"

section \<open>The blindspots page\<close>

datatype seg_type = SegLeft | SegCenter | SegRight | SegUnknown

datatype badge = BadgeLeft | BadgeRight

text \<open>One rendered card: what the template interpolates, in the template's order.\<close>

record card =
  card_id :: "string option"
  card_badge :: badge
  card_kind :: string
  card_title :: string
  card_coverage :: "int option"
  card_plural :: bool
  card_lean :: string
  card_score :: real
  card_segments :: "(seg_type \<times> real) list"

datatype blindspots_view =
    BlindspotsLoading
  | BlindspotsEmpty
  | BlindspotsCards "card list"
  | BlindspotsFailed

record blindspots_page =
  blindspots :: "story list"
  blindspots_loading :: bool
  blindspots_grid :: blindspots_view
  blindspots_updated :: "string option"

fun starts_with :: "string \<Rightarrow> string \<Rightarrow> bool" where
  "starts_with s [] = True"
| "starts_with [] (c # cs) = False"
| "starts_with (x # xs) (c # cs) = (x = c \<and> starts_with xs cs)"

text \<open>\<open>String.prototype.includes\<close>.\<close>

fun str_includes :: "string \<Rightarrow> string \<Rightarrow> bool" where
  "str_includes [] sub = (sub = [])"
| "str_includes (x # xs) sub = (starts_with (x # xs) sub \<or> str_includes xs sub)"

definition num_or_zero :: "real option \<Rightarrow> real" where
  "num_or_zero v = (case v of None \<Rightarrow> 0 | Some x \<Rightarrow> x)"

text \<open>\<open>item.bias_bar || {}\<close>, the four segments, and the filter \<open>seg.value > 0\<close>.\<close>

definition segments :: "bar_json option \<Rightarrow> (seg_type \<times> real) list" where
  "segments b =
     (case (case b of None \<Rightarrow> Bar None None None None | Some bar \<Rightarrow> bar) of
        Bar l c r u \<Rightarrow>
          filter (\<lambda>seg. snd seg > 0)
            [(SegLeft, num_or_zero l), (SegCenter, num_or_zero c),
             (SegRight, num_or_zero r), (SegUnknown, num_or_zero u)])"

text \<open>
  The callback of \<open>blindspots.map\<close>. \<open>item.kind.includes('Left')\<close> reads a property of
  \<open>item.kind\<close> with no default, which throws when \<open>kind\<close> is absent.
\<close>

definition render_item :: "story \<Rightarrow> js_error + card" where
  "render_item item =
     (case kind item of
        None \<Rightarrow> Inl TypeError
      | Some k \<Rightarrow>
          Inr \<lparr>card_id = story_id item,
               card_badge = (if str_includes k ''Left'' then BadgeLeft else BadgeRight),
               card_kind = k,
               card_title = (case title item of None \<Rightarrow> [] | Some t \<Rightarrow> t),
               card_coverage = coverage item,
               card_plural = (coverage item \<noteq> Some 1),
               card_lean = (case lean item of None \<Rightarrow> ''Unknown'' | Some l \<Rightarrow> or_default l ''Unknown''),
               card_score = num_or_zero (bias_score item),
               card_segments = segments (bias_bar item)\<rparr>)"

text \<open>\<open>Array.prototype.map\<close> with a callback that may throw: the first throw ends it.\<close>

fun map_throwing :: "('a \<Rightarrow> js_error + 'b) \<Rightarrow> 'a list \<Rightarrow> js_error + 'b list" where
  "map_throwing f [] = Inr []"
| "map_throwing f (x # xs) =
     (case f x of
        Inl err \<Rightarrow> Inl err
      | Inr y \<Rightarrow> (case map_throwing f xs of Inl err \<Rightarrow> Inl err | Inr ys \<Rightarrow> Inr (y # ys)))"

definition renderBlindspots :: "story list \<Rightarrow> bool \<Rightarrow> js_error + blindspots_view" where
  "renderBlindspots items is_loading =
     (if items = [] \<and> \<not> is_loading then Inr BlindspotsEmpty
      else (case map_throwing render_item items of
              Inl err \<Rightarrow> Inl err
            | Inr cards \<Rightarrow> Inr (BlindspotsCards cards)))"

text \<open>\<open>loadBlindspots()\<close> up to \<open>await fetchBlindspots()\<close>.\<close>

definition loadBlindspots_enter :: "blindspots_page \<Rightarrow> blindspots_page" where
  "loadBlindspots_enter p =
     (if blindspots_loading p then p
      else p\<lparr>blindspots_loading := True, blindspots_grid := BlindspotsLoading\<rparr>)"



section \<open>The trending page\<close>

datatype momentum = Surging | Rising | Steady

text \<open>
  One rendered topic card. The medal is the rank when it is 1, 2 or 3; the heat is
  \<open>Math.round\<close> of the score (\<open>None\<close>: not a number).
\<close>

record topic_card =
  topic_medal :: "nat option"
  topic_keyword :: string
  topic_heat :: "int option"
  topic_count :: "int option"
  topic_sources :: "int option"
  topic_momentum :: momentum
  topic_headlines :: "string list"

datatype trending_view =
    TrendingLoading
  | TrendingEmpty
  | TrendingCards "topic_card list"
  | TrendingFailed

record trending_page =
  topics :: "topic list"
  trending_loading :: bool
  trending_grid :: trending_view
  trending_updated :: "string option"




text \<open>\<open>loadTrending()\<close> up to \<open>await fetchTrending()\<close>.\<close>

definition loadTrending_enter :: "trending_page \<Rightarrow> trending_page" where
  "loadTrending_enter p =
     (if trending_loading p then p
      else p\<lparr>trending_loading := True, trending_grid := TrendingLoading\<rparr>)"



section \<open>The theme preference\<close>

text \<open>
  \<open>localStorage\<close> is a map from keys to strings; \<open>getItem\<close> of a missing key is \<open>null\<close>.
  A page is the \<open>data-theme\<close> attribute of its document and the storage. The story list,
  story and trending scripts share one text of \<open>initTheme\<close> and \<open>toggleTheme\<close>; the
  blindspots script has its own.
\<close>

type_synonym storage = "string \<rightharpoonup> string"

definition getItem_or :: "storage \<Rightarrow> string \<Rightarrow> string \<Rightarrow> string" where
  "getItem_or ls k d = (case ls k of None \<Rightarrow> d | Some v \<Rightarrow> or_default v d)"

definition next_theme :: "string option \<Rightarrow> string" where
  "next_theme current = (if current = Some ''dark'' then ''light'' else ''dark'')"

definition initTheme_app :: "storage \<Rightarrow> string" where
  "initTheme_app ls = getItem_or ls ''openground-theme'' ''dark''"

definition toggleTheme_app :: "string option \<times> storage \<Rightarrow> string option \<times> storage" where
  "toggleTheme_app p =
     (case p of (current, ls) \<Rightarrow>
        (Some (next_theme current), ls(''openground-theme'' \<mapsto> next_theme current)))"

definition initTheme_blindspots :: "storage \<Rightarrow> string" where
  "initTheme_blindspots ls = getItem_or ls ''theme'' ''light''"

definition toggleTheme_blindspots :: "string option \<times> storage \<Rightarrow> string option \<times> storage" where
  "toggleTheme_blindspots p =
     (case p of (current, ls) \<Rightarrow>
        (Some (next_theme current), ls(''theme'' \<mapsto> next_theme current)))"

section \<open>Sample data\<close>




definition sample_story :: "string \<Rightarrow> story" where
  "sample_story i =
     \<lparr>story_id = Some i, kind = None, title = Some i, coverage = Some 3,
      lean = Some ''Center'', bias_score = Some 0, bias_bar = None\<rparr>"

text \<open>A blindspot item that carries its \<open>kind\<close> and nothing else.\<close>

definition bare :: story where
  "bare = \<lparr>story_id = None, kind = Some ''Left Blindspot'', title = None, coverage = None,
     lean = None, bias_score = None, bias_bar = None\<rparr>"

definition A :: story where "A = sample_story ''A''"
definition B :: story where "B = sample_story ''B''"
definition C :: story where "C = sample_story ''C''"
definition D :: story where "D = sample_story ''D''"

definition page :: "int \<Rightarrow> story list \<Rightarrow> stories_json response" where
  "page n its = Replied True (Some (JsonPage (Some n) (Some its)))"

definition cats :: event where
  "cats = CategoriesResponse (Replied True (Some (CategoriesObj (Some [''All'', ''Tech'']))))"

definition refreshed :: event where
  "refreshed = RefreshResponse (Replied True (Some (RefreshObj True (Some 7) (Some 4))))"

text \<open>The page while its first load is in flight, and after a first page has arrived.\<close>

definition first_load :: world where
  "first_load = run [cats] world0"

definition loaded2 :: world where
  "loaded2 = run [cats, StoriesResponse 0 (page 2 [A, B])] world0"

definition loaded5 :: world where
  "loaded5 = run [cats, StoriesResponse 0 (page 5 [A, B])] world0"

text \<open>Keystrokes in the search box, each followed by the time to the next event.\<close>

fun keystrokes :: "(string \<times> nat) list \<Rightarrow> event list" where
  "keystrokes [] = []"
| "keystrokes ((text, gap) # ks) = InputSearch text # Elapse gap # keystrokes ks"

section \<open>Evaluation lemmas\<close>

lemmas handler_defs = loadStories_enter_def loadStories_resume_def loadStories_try_def
  after_loadStories_def after_updateMeta_def updateMeta_enter_def renderStories_def
  updateStatStories_def updateStatCategory_def updateMoreButton_def loadMore_def
  category_click_def handleSearch_def search_timer_def clearSearch_def refreshData_enter_def
  refresh_catch_def refresh_finally_def showToast_def refreshData_resume_def
  updateMeta_resume_def init_resume_def remove_nth_def elapse_def

lemmas fetch_defs = fetch_json_def fetchStories_def fetchMeta_def fetchCategories_def
  stories_fallback_def meta_fallback_def

lemmas value_defs = stories_request_def or_default_def items_or_empty_def total_or_zero_def

lemma first_load_eq:
  "first_load = world0
     \<lparr>state := state0\<lparr>categories := [''All'', ''Tech''], loading := True\<rparr>,
      grid := GridLoading,
      pending := [(\<lparr>req_category = ''All'', req_q = [], req_limit = 30, req_offset = 0\<rparr>, FromInit)],
      issued := [\<lparr>req_category = ''All'', req_q = [], req_limit = 30, req_offset = 0\<rparr>],
      awaiting_categories := False\<rparr>"
  by (simp add: first_load_def world0_def state0_def cats_def handler_defs fetch_defs
      value_defs Let_def)

lemma loaded_eq:
  "step (StoriesResponse 0 (page n its)) first_load = world0
     \<lparr>state := state0\<lparr>categories := [''All'', ''Tech''], stories := its,
                      hasMore := (int (length its) < n)\<rparr>,
      grid := GridCards its, more_shown := (int (length its) < n), statStories := Some n,
      issued := [\<lparr>req_category = ''All'', req_q = [], req_limit = 30, req_offset = 0\<rparr>],
      awaiting_categories := False, meta_pending := [FromInit]\<rparr>"
  by (simp add: first_load_eq world0_def state0_def page_def handler_defs fetch_defs
      value_defs Let_def)

lemma loaded2_eq: "loaded2 = step (StoriesResponse 0 (page 2 [A, B])) first_load"
  by (simp add: loaded2_def first_load_def)

lemma loaded5_eq: "loaded5 = step (StoriesResponse 0 (page 5 [A, B])) first_load"
  by (simp add: loaded5_def first_load_def)

section \<open>Load more\<close>

lemma more_gate_frame [simp]:
  "more_gate (w\<lparr>grid := g\<rparr>) = more_gate w"
  "more_gate (w\<lparr>statStories := n\<rparr>) = more_gate w"
  "more_gate (w\<lparr>statCat := sc\<rparr>) = more_gate w"
  "more_gate (w\<lparr>updatedText := u\<rparr>) = more_gate w"
  "more_gate (w\<lparr>q_value := q\<rparr>) = more_gate w"
  "more_gate (w\<lparr>searchTimeout := st\<rparr>) = more_gate w"
  "more_gate (w\<lparr>clock := t\<rparr>) = more_gate w"
  "more_gate (w\<lparr>pending := ps\<rparr>) = more_gate w"
  "more_gate (w\<lparr>issued := rs\<rparr>) = more_gate w"
  "more_gate (w\<lparr>awaiting_categories := b\<rparr>) = more_gate w"
  "more_gate (w\<lparr>refresh_disabled := b\<rparr>) = more_gate w"
  "more_gate (w\<lparr>refresh_pending := b\<rparr>) = more_gate w"
  "more_gate (w\<lparr>meta_pending := mp\<rparr>) = more_gate w"
  "more_gate (w\<lparr>toast := tm\<rparr>) = more_gate w"
  by (simp_all add: more_gate_def)

lemma more_gate_state:
  "hasMore s = hasMore (state w) \<Longrightarrow> more_gate (w\<lparr>state := s\<rparr>) = more_gate w"
  by (simp add: more_gate_def)

lemma more_gate_enter: "more_gate w \<Longrightarrow> more_gate (loadStories_enter c w)"
  by (simp add: loadStories_enter_def after_loadStories_def updateMeta_enter_def
      more_gate_state Let_def split: caller.split)

lemma more_gate_resume: "more_gate w \<Longrightarrow> more_gate (loadStories_resume c res w)"
  by (simp add: more_gate_def loadStories_resume_def loadStories_try_def
      after_loadStories_def updateMeta_enter_def renderStories_def updateStatStories_def
      updateMoreButton_def Let_def
      split: caller.split sum.split stories_json.split)

lemma more_gate_search_timer: "more_gate w \<Longrightarrow> more_gate (search_timer w)"
  unfolding search_timer_def by (rule more_gate_enter) (simp add: more_gate_state)

lemma more_gate_step: "more_gate w \<Longrightarrow> more_gate (step e w)"
proof (cases e)
  case (CategoriesResponse r)
  assume a: "more_gate w"
  have "\<And>cs. more_gate (loadStories_enter FromInit
          (w\<lparr>awaiting_categories := False,
             state := (state w)\<lparr>categories := cs\<rparr>\<rparr>))"
    by (rule more_gate_enter) (use a in \<open>simp add: more_gate_state\<close>)
  then show ?thesis using a CategoriesResponse
    by (simp add: init_resume_def split: sum.split)
next
  case (ClickCategory cat c)
  assume a: "more_gate w"
  have "more_gate (loadStories_enter Detached
          (w\<lparr>state := (state w)\<lparr>category := c, offset := 0, stories := []\<rparr>\<rparr>))"
    by (rule more_gate_enter) (use a in \<open>simp add: more_gate_state\<close>)
  then show ?thesis using a ClickCategory
    by (simp add: category_click_def updateStatCategory_def)
next
  case ClickMore
  assume a: "more_gate w"
  have "more_gate (loadMore w)"
    unfolding loadMore_def by (rule more_gate_enter) (use a in \<open>simp add: more_gate_state\<close>)
  then show ?thesis using a ClickMore by simp
next
  case (InputSearch t)
  assume "more_gate w"
  then show ?thesis using InputSearch by (simp add: handleSearch_def)
next
  case ClickClear
  assume a: "more_gate w"
  have "more_gate (clearSearch w)"
    unfolding clearSearch_def by (rule more_gate_enter) (use a in \<open>simp add: more_gate_state\<close>)
  then show ?thesis using ClickClear by simp
next
  case ClickRefresh
  assume "more_gate w"
  then show ?thesis using ClickRefresh by (simp add: refreshData_enter_def)
next
  case ClickRetry
  assume "more_gate w"
  then show ?thesis using ClickRetry by (simp add: more_gate_enter split: grid_view.split)
next
  case (StoriesResponse k r)
  assume a: "more_gate w"
  have "more_gate (loadStories_resume (snd (pending w ! k)) (fetchStories r)
          (w\<lparr>pending := remove_nth k (pending w)\<rparr>))"
    by (rule more_gate_resume) (use a in simp)
  then show ?thesis using a StoriesResponse by simp
next
  case (RefreshResponse r)
  assume a: "more_gate w"
  have "\<And>x y. more_gate (loadStories_enter (FromRefresh x y)
          (w\<lparr>refresh_pending := False, state := (state w)\<lparr>offset := 0, stories := []\<rparr>\<rparr>))"
    by (rule more_gate_enter) (use a in \<open>simp add: more_gate_state\<close>)
  then show ?thesis using a RefreshResponse
    by (simp add: refreshData_resume_def refresh_catch_def refresh_finally_def showToast_def
        split: sum.split refresh_json.split)
next
  case (MetaResponse k r)
  assume a: "more_gate w"
  then show ?thesis using MetaResponse
    by (simp add: updateMeta_resume_def after_updateMeta_def refresh_finally_def
        showToast_def Let_def split: sum.split meta_json.split option.split caller.split)
next
  case (Elapse d)
  assume a: "more_gate w"
  have "more_gate (search_timer (w\<lparr>clock := clock w + d, searchTimeout := None\<rparr>))"
    by (rule more_gate_search_timer) (use a in simp)
  then show ?thesis using a Elapse
    by (simp add: elapse_def Let_def split: option.split prod.split)
qed

lemma more_gate_run: "more_gate w \<Longrightarrow> more_gate (run es w)"
  by (induction es arbitrary: w) (simp_all add: more_gate_step)

lemma more_gate_world0: "more_gate world0"
  by (simp add: more_gate_def world0_def state0_def)

lemma more_click_gated:
  "\<not> hasMore (state (run es world0)) \<Longrightarrow> step ClickMore (run es world0) = run es world0"
  using more_gate_run [OF more_gate_world0, of es] by (simp add: more_gate_def)

text \<open>
  Claim C1, as the code has it. \<open>loadMore()\<close> has no guard of its own: it adds \<open>limit\<close>
  to \<open>offset\<close> and calls \<open>loadStories()\<close>, whose guard looks at \<open>loading\<close> only. When no
  load is in progress, whatever \<open>hasMore\<close> is, the offset advances by \<open>limit\<close>, the flag
  is set and exactly one request for the new offset is sent; a second \<open>loadMore()\<close>
  before the answer sends nothing; and (for a positive \<open>limit\<close>) the page that answers
  is appended to the list. When a load is in progress, \<open>loadMore()\<close> sends nothing and
  leaves category, query, stories, \<open>hasMore\<close> and \<open>loading\<close> as they are. What keeps
  \<open>loadMore()\<close> from running when \<open>hasMore\<close> is false is the button: in every page
  reached from the start it is hidden then, and a click on it does nothing.
\<close>

theorem loadMore_effect:
  "(\<not> loading (state w) \<longrightarrow>
      state (loadMore w)
        = (state w)\<lparr>offset := offset (state w) + limit (state w), loading := True\<rparr>
      \<and> issued (loadMore w)
        = issued w @ [stories_request ((state w)\<lparr>offset := offset (state w) + limit (state w)\<rparr>)]
      \<and> issued (loadMore (loadMore w)) = issued (loadMore w)
      \<and> (0 < limit (state w) \<longrightarrow>
           stories (state (step (StoriesResponse (length (pending w))
                                   (Replied True (Some (JsonPage t i)))) (loadMore w)))
             = stories (state w) @ items_or_empty i))
   \<and> (loading (state w) \<longrightarrow>
        issued (loadMore w) = issued w \<and> pending (loadMore w) = pending w
        \<and> category (state (loadMore w)) = category (state w)
        \<and> query (state (loadMore w)) = query (state w)
        \<and> stories (state (loadMore w)) = stories (state w)
        \<and> hasMore (state (loadMore w)) = hasMore (state w)
        \<and> loading (state (loadMore w)))
   \<and> (\<not> hasMore (state (run es world0)) \<longrightarrow>
        step ClickMore (run es world0) = run es world0)"
proof -
  have main:
    "(\<not> loading (state w) \<longrightarrow>
        state (loadMore w)
          = (state w)\<lparr>offset := offset (state w) + limit (state w), loading := True\<rparr>
        \<and> issued (loadMore w)
          = issued w @ [stories_request ((state w)\<lparr>offset := offset (state w) + limit (state w)\<rparr>)]
        \<and> issued (loadMore (loadMore w)) = issued (loadMore w)
        \<and> (0 < limit (state w) \<longrightarrow>
             stories (state (step (StoriesResponse (length (pending w))
                                     (Replied True (Some (JsonPage t i)))) (loadMore w)))
               = stories (state w) @ items_or_empty i))
     \<and> (loading (state w) \<longrightarrow>
          issued (loadMore w) = issued w \<and> pending (loadMore w) = pending w
          \<and> category (state (loadMore w)) = category (state w)
          \<and> query (state (loadMore w)) = query (state w)
          \<and> stories (state (loadMore w)) = stories (state w)
          \<and> hasMore (state (loadMore w)) = hasMore (state w)
          \<and> loading (state (loadMore w)))"
    by (simp add: loadMore_def loadStories_enter_def loadStories_resume_def loadStories_try_def
        after_loadStories_def renderStories_def updateStatStories_def updateMoreButton_def
        remove_nth_def fetchStories_def fetch_json_def stories_request_def Let_def)
  show ?thesis using main more_click_gated [of es] by blast
qed

text \<open>
  Both cases at concrete pages: after a first page of five announced stories, and while
  the first load is in flight.
\<close>

theorem loadMore_effect_witness:
  "\<not> loading (state loaded5) \<and> 0 < limit (state loaded5)
   \<and> offset (state (loadMore loaded5)) = 30
   \<and> map req_offset (issued (loadMore loaded5)) = [0, 30]
   \<and> issued (loadMore (loadMore loaded5)) = issued (loadMore loaded5)
   \<and> stories (state (step (StoriesResponse 0 (page 5 [C, D])) (loadMore loaded5)))
       = [A, B, C, D]
   \<and> loading (state first_load)
   \<and> issued (loadMore first_load) = issued first_load
   \<and> stories (state (loadMore first_load)) = stories (state first_load)
   \<and> \<not> hasMore (state loaded2)
   \<and> step ClickMore loaded2 = loaded2"
proof -
  have es: "run [cats, StoriesResponse 0 (page 2 [A, B])] world0 = loaded2"
    by (simp add: loaded2_def)
  have h: "\<not> hasMore (state loaded2)"
    by (simp only: loaded2_eq loaded_eq) (simp add: world0_def state0_def)
  have gated: "step ClickMore loaded2 = loaded2"
    using loadMore_effect [where es = "[cats, StoriesResponse 0 (page 2 [A, B])]" and w = loaded2
        and t = None and i = None] h
    unfolding es by blast
  have rest: "\<not> loading (state loaded5) \<and> 0 < limit (state loaded5)
   \<and> offset (state (loadMore loaded5)) = 30
   \<and> map req_offset (issued (loadMore loaded5)) = [0, 30]
   \<and> issued (loadMore (loadMore loaded5)) = issued (loadMore loaded5)
   \<and> stories (state (step (StoriesResponse 0 (page 5 [C, D])) (loadMore loaded5)))
       = [A, B, C, D]
   \<and> loading (state first_load)
   \<and> issued (loadMore first_load) = issued first_load
   \<and> stories (state (loadMore first_load)) = stories (state first_load)"
    using loadMore_effect [where w = loaded5 and t = "Some 5" and i = "Some [C, D]" and es = "[]"]
      loadMore_effect [where w = first_load and t = None and i = None and es = "[]"]
    by (simp only: loaded5_eq loaded_eq)
       (simp add: first_load_eq world0_def state0_def page_def value_defs)
  show ?thesis using rest h gated by blast
qed

text \<open>
  Claim C1 as stated fails: after a first page that holds everything (\<open>hasMore\<close> false,
  nothing loading), \<open>loadMore()\<close> still moves the offset and sends a request. And two
  clicks on "more" before the answer send one request, for offset 30, but leave the
  offset at 60.
\<close>

theorem loadMore_unguarded:
  "\<not> hasMore (state loaded2) \<and> \<not> loading (state loaded2)
   \<and> offset (state (loadMore loaded2)) \<noteq> offset (state loaded2)
   \<and> length (issued (loadMore loaded2)) = Suc (length (issued loaded2))
   \<and> offset (state loaded5) = 0
   \<and> offset (state (run [ClickMore, ClickMore] loaded5)) = 60
   \<and> map req_offset (issued (run [ClickMore, ClickMore] loaded5)) = [0, 30]"
proof -
  have a: "\<not> hasMore (state loaded2) \<and> \<not> loading (state loaded2)
   \<and> offset (state (loadMore loaded2)) \<noteq> offset (state loaded2)
   \<and> length (issued (loadMore loaded2)) = Suc (length (issued loaded2))"
    by (simp only: loaded2_eq loaded_eq)
       (simp add: world0_def state0_def loadMore_def loadStories_enter_def value_defs Let_def)
  have b: "offset (state loaded5) = 0
   \<and> offset (state (run [ClickMore, ClickMore] loaded5)) = 60
   \<and> map req_offset (issued (run [ClickMore, ClickMore] loaded5)) = [0, 30]"
    by (simp only: loaded5_eq loaded_eq)
       (simp add: world0_def state0_def loadMore_def loadStories_enter_def
          after_loadStories_def value_defs Let_def)
  show ?thesis using a b by blast
qed

section \<open>Merging a page\<close>

text \<open>
  Claim C2. When the answer to a pending page request is a well-formed page, the list
  becomes the page's items if the offset is 0 and the old list followed by the page's
  items otherwise, and \<open>hasMore\<close> becomes whether the new list is shorter than the
  reported total. A first page \<open>{total: 2, items: [A, B]}\<close> gives the list \<open>[A, B]\<close> and
  \<open>hasMore\<close> false; a first page \<open>{total: 5, items: [A, B]}\<close>, then "more" answered by
  \<open>{total: 5, items: [C, D]}\<close>, gives \<open>[A, B, C, D]\<close> and \<open>hasMore\<close> true.
\<close>

theorem page_merge:
  "(k < length (pending w) \<longrightarrow>
      stories (state (step (StoriesResponse k (Replied True (Some (JsonPage t i)))) w))
        = (if offset (state w) = 0 then items_or_empty i
           else stories (state w) @ items_or_empty i)
      \<and> hasMore (state (step (StoriesResponse k (Replied True (Some (JsonPage t i)))) w))
        = (int (length (stories (state
             (step (StoriesResponse k (Replied True (Some (JsonPage t i)))) w))))
           < total_or_zero t))
   \<and> stories (state (run [cats, StoriesResponse 0 (page 2 [A, B])] world0)) = [A, B]
   \<and> \<not> hasMore (state (run [cats, StoriesResponse 0 (page 2 [A, B])] world0))
   \<and> stories (state (run [cats, StoriesResponse 0 (page 5 [A, B]), ClickMore,
                             StoriesResponse 0 (page 5 [C, D])] world0)) = [A, B, C, D]
   \<and> hasMore (state (run [cats, StoriesResponse 0 (page 5 [A, B]), ClickMore,
                             StoriesResponse 0 (page 5 [C, D])] world0))"
proof -
  have general: "k < length (pending w) \<longrightarrow>
      stories (state (step (StoriesResponse k (Replied True (Some (JsonPage t i)))) w))
        = (if offset (state w) = 0 then items_or_empty i
           else stories (state w) @ items_or_empty i)
      \<and> hasMore (state (step (StoriesResponse k (Replied True (Some (JsonPage t i)))) w))
        = (int (length (stories (state
             (step (StoriesResponse k (Replied True (Some (JsonPage t i)))) w))))
           < total_or_zero t)"
    by (simp add: loadStories_resume_def loadStories_try_def after_loadStories_def
        updateMeta_enter_def renderStories_def updateStatStories_def updateMoreButton_def
        fetchStories_def fetch_json_def Let_def split: caller.split)
  have two: "run [cats, StoriesResponse 0 (page 2 [A, B])] world0 = loaded2"
    by (simp add: loaded2_def)
  have five: "run [cats, StoriesResponse 0 (page 5 [A, B]), ClickMore,
                StoriesResponse 0 (page 5 [C, D])] world0
              = step (StoriesResponse 0 (page 5 [C, D])) (step ClickMore loaded5)"
    by (simp add: loaded5_def)
  have a: "stories (state loaded2) = [A, B] \<and> \<not> hasMore (state loaded2)"
    by (simp only: loaded2_eq loaded_eq) (simp add: world0_def state0_def)
  have b: "stories (state (step (StoriesResponse 0 (page 5 [C, D])) (step ClickMore loaded5)))
             = [A, B, C, D]
           \<and> hasMore (state (step (StoriesResponse 0 (page 5 [C, D])) (step ClickMore loaded5)))"
    by (simp only: loaded5_eq loaded_eq)
       (simp add: world0_def state0_def page_def handler_defs fetch_defs value_defs Let_def)
  show ?thesis using general a b by (simp only: two five) simp
qed

text \<open>The general part at the first load, answered by \<open>{total: 2, items: [A, B]}\<close>.\<close>

theorem page_merge_witness:
  "0 < length (pending first_load)
   \<and> stories (state (step (StoriesResponse 0
        (Replied True (Some (JsonPage (Some 2) (Some [A, B]))))) first_load)) = [A, B]
   \<and> \<not> hasMore (state (step (StoriesResponse 0
        (Replied True (Some (JsonPage (Some 2) (Some [A, B]))))) first_load))"
  using page_merge [of 0 first_load "Some 2" "Some [A, B]"]
  by (simp add: first_load_eq world0_def state0_def value_defs)

section \<open>One load at a time\<close>

lemma one_flight_enter:
  "one_flight w \<Longrightarrow> one_flight (loadStories_enter c w)"
  by (auto simp add: one_flight_def loadStories_enter_def after_loadStories_def updateMeta_enter_def
      Let_def split: caller.split if_splits)

lemma one_flight_state:
  "loading s = loading (state w) \<Longrightarrow> one_flight (w\<lparr>state := s\<rparr>) = one_flight w"
  by (simp add: one_flight_def)

lemma one_flight_frame [simp]:
  "one_flight (w\<lparr>grid := g\<rparr>) = one_flight w"
  "one_flight (w\<lparr>more_shown := b\<rparr>) = one_flight w"
  "one_flight (w\<lparr>statStories := n\<rparr>) = one_flight w"
  "one_flight (w\<lparr>statCat := sc\<rparr>) = one_flight w"
  "one_flight (w\<lparr>updatedText := u\<rparr>) = one_flight w"
  "one_flight (w\<lparr>q_value := q\<rparr>) = one_flight w"
  "one_flight (w\<lparr>searchTimeout := st\<rparr>) = one_flight w"
  "one_flight (w\<lparr>clock := t\<rparr>) = one_flight w"
  "one_flight (w\<lparr>awaiting_categories := b\<rparr>) = one_flight w"
  "one_flight (w\<lparr>refresh_disabled := b\<rparr>) = one_flight w"
  "one_flight (w\<lparr>refresh_pending := b\<rparr>) = one_flight w"
  "one_flight (w\<lparr>meta_pending := mp\<rparr>) = one_flight w"
  "one_flight (w\<lparr>toast := tm\<rparr>) = one_flight w"
  by (simp_all add: one_flight_def)

lemma one_flight_resume:
  "one_flight w \<Longrightarrow> k < length (pending w) \<Longrightarrow>
   one_flight (loadStories_resume c res (w\<lparr>pending := remove_nth k (pending w)\<rparr>))"
  by (auto simp add: one_flight_def loadStories_resume_def loadStories_try_def
      after_loadStories_def updateMeta_enter_def renderStories_def updateStatStories_def
      updateMoreButton_def remove_nth_def Let_def
      split: caller.split sum.split stories_json.split if_splits)

lemma one_flight_category_click: "one_flight w \<Longrightarrow> one_flight (category_click c w)"
proof -
  assume a: "one_flight w"
  have "one_flight (loadStories_enter Detached
          (w\<lparr>state := (state w)\<lparr>category := c, offset := 0, stories := []\<rparr>\<rparr>))"
    by (rule one_flight_enter) (use a in \<open>simp add: one_flight_state\<close>)
  then show ?thesis using a
    by (simp add: category_click_def updateStatCategory_def)
qed

lemma one_flight_loadMore: "one_flight w \<Longrightarrow> one_flight (loadMore w)"
  unfolding loadMore_def by (rule one_flight_enter) (simp add: one_flight_def)

lemma one_flight_search_timer: "one_flight w \<Longrightarrow> one_flight (search_timer w)"
  unfolding search_timer_def by (rule one_flight_enter) (simp add: one_flight_def)

lemma one_flight_clearSearch: "one_flight w \<Longrightarrow> one_flight (clearSearch w)"
  unfolding clearSearch_def by (rule one_flight_enter) (simp add: one_flight_def)

lemma one_flight_init_resume: "one_flight w \<Longrightarrow> one_flight (init_resume r w)"
proof -
  assume a: "one_flight w"
  have "\<And>cs. one_flight (loadStories_enter FromInit (w\<lparr>state := (state w)\<lparr>categories := cs\<rparr>\<rparr>))"
    by (rule one_flight_enter) (use a in \<open>simp add: one_flight_state\<close>)
  then show ?thesis using a
    by (simp add: init_resume_def split: sum.split)
qed

lemma one_flight_refresh_resume: "one_flight w \<Longrightarrow> one_flight (refreshData_resume r w)"
proof -
  assume a: "one_flight w"
  have "\<And>x y. one_flight (loadStories_enter (FromRefresh x y) (w\<lparr>state := (state w)\<lparr>offset := 0, stories := []\<rparr>\<rparr>))"
    by (rule one_flight_enter) (use a in \<open>simp add: one_flight_state\<close>)
  moreover have "one_flight (refresh_catch w)"
    using a by (simp add: refresh_catch_def refresh_finally_def showToast_def)
  ultimately show ?thesis
    by (simp add: refreshData_resume_def split: sum.split refresh_json.split)
qed

lemma one_flight_meta_resume: "one_flight w \<Longrightarrow> one_flight (updateMeta_resume c r w)"
  by (simp add: updateMeta_resume_def after_updateMeta_def refresh_finally_def
      showToast_def Let_def split: sum.split meta_json.split option.split caller.split)

lemma one_flight_elapse: "one_flight w \<Longrightarrow> one_flight (elapse d w)"
proof -
  assume a: "one_flight w"
  have "one_flight (search_timer (w\<lparr>clock := clock w + d, searchTimeout := None\<rparr>))"
    by (rule one_flight_search_timer) (use a in simp)
  then show ?thesis using a
    by (simp add: elapse_def Let_def split: option.split prod.split)
qed

lemma one_flight_step: "one_flight w \<Longrightarrow> one_flight (step e w)"
proof (cases e)
  case (StoriesResponse k r)
  assume "one_flight w"
  then show ?thesis using StoriesResponse by (simp add: one_flight_resume)
next
  case (CategoriesResponse r)
  assume a: "one_flight w"
  have "one_flight (init_resume r (w\<lparr>awaiting_categories := False\<rparr>))"
    by (rule one_flight_init_resume) (use a in simp)
  then show ?thesis using a CategoriesResponse by simp
next
  case (ClickCategory cat c)
  assume "one_flight w"
  then show ?thesis using ClickCategory by (simp add: one_flight_category_click)
next
  case ClickMore
  assume "one_flight w"
  then show ?thesis using ClickMore by (simp add: one_flight_loadMore)
next
  case (InputSearch t)
  assume "one_flight w"
  then show ?thesis using InputSearch by (simp add: handleSearch_def)
next
  case ClickClear
  assume "one_flight w"
  then show ?thesis using ClickClear by (simp add: one_flight_clearSearch)
next
  case ClickRefresh
  assume "one_flight w"
  then show ?thesis using ClickRefresh by (simp add: refreshData_enter_def)
next
  case ClickRetry
  assume "one_flight w"
  then show ?thesis using ClickRetry by (simp add: one_flight_enter split: grid_view.split)
next
  case (RefreshResponse r)
  assume a: "one_flight w"
  have "one_flight (refreshData_resume r (w\<lparr>refresh_pending := False\<rparr>))"
    by (rule one_flight_refresh_resume) (use a in simp)
  then show ?thesis using a RefreshResponse by simp
next
  case (MetaResponse k r)
  assume a: "one_flight w"
  have "one_flight (updateMeta_resume (meta_pending w ! k) r (w\<lparr>meta_pending := remove_nth k (meta_pending w)\<rparr>))"
    by (rule one_flight_meta_resume) (use a in simp)
  then show ?thesis using a MetaResponse by simp
next
  case (Elapse d)
  assume "one_flight w"
  then show ?thesis using Elapse by (simp add: one_flight_elapse)
qed

lemma one_flight_run: "one_flight w \<Longrightarrow> one_flight (run es w)"
  by (induction es arbitrary: w) (simp_all add: one_flight_step)

lemma one_flight_world0: "one_flight world0"
  by (simp add: one_flight_def world0_def state0_def)

lemma state_resume:
  "state (loadStories_resume c res w) = state (loadStories_resume Detached res (w\<lparr>pending := []\<rparr>))"
  by (simp add: loadStories_resume_def loadStories_try_def after_loadStories_def
      updateMeta_enter_def renderStories_def updateStatStories_def updateMoreButton_def Let_def
      split: caller.split sum.split stories_json.split)

lemma resume_not_loading: "\<not> loading (state (loadStories_resume c res w))"
  by (simp add: loadStories_resume_def after_loadStories_def updateMeta_enter_def Let_def
      split: caller.split)

lemma enter_dropped: "loading (state w) \<Longrightarrow> loadStories_enter Detached w = w"
  by (simp add: loadStories_enter_def after_loadStories_def)

lemma enter_dropped_any:
  "loading (state w) \<Longrightarrow>
   state (loadStories_enter c w) = state w \<and> pending (loadStories_enter c w) = pending w
   \<and> issued (loadStories_enter c w) = issued w \<and> grid (loadStories_enter c w) = grid w"
  by (simp add: loadStories_enter_def after_loadStories_def updateMeta_enter_def split: caller.split)

text \<open>
  Claim C3, as the code has it. In every page reached from the start, \<open>loading\<close> is
  true exactly when one page request is in flight and false exactly when none is, so at
  most one is in flight. A \<open>loadStories()\<close> entered while \<open>loading\<close> is true is dropped:
  a call nobody awaits changes nothing at all, and an awaited one leaves the state, the
  requests and the grid alone. When a load ends, by success or by failure, \<open>loading\<close> is
  false. The dropped call is not among the paths that clear the flag.
\<close>

theorem loading_flag:
  "(loading (state (run es world0)) \<longleftrightarrow> length (pending (run es world0)) = 1)
   \<and> (\<not> loading (state (run es world0)) \<longleftrightarrow> pending (run es world0) = [])
   \<and> length (pending (run es world0)) \<le> 1
   \<and> (loading (state w) \<longrightarrow> loadStories_enter Detached w = w)
   \<and> (loading (state w) \<longrightarrow>
        state (loadStories_enter c w) = state w \<and> pending (loadStories_enter c w) = pending w
        \<and> issued (loadStories_enter c w) = issued w \<and> grid (loadStories_enter c w) = grid w)
   \<and> \<not> loading (state (loadStories_resume c res w))"
proof -
  have "one_flight (run es world0)"
    by (rule one_flight_run) (rule one_flight_world0)
  then have "(loading (state (run es world0)) \<longleftrightarrow> length (pending (run es world0)) = 1)
   \<and> (\<not> loading (state (run es world0)) \<longleftrightarrow> pending (run es world0) = [])
   \<and> length (pending (run es world0)) \<le> 1"
    by (auto simp add: one_flight_def split: if_splits)
  then show ?thesis
    using enter_dropped [of w] enter_dropped_any [of w c] resume_not_loading [of c res w]
    by blast
qed

text \<open>The first load in flight, a dropped call, and the load ending well and badly.\<close>

theorem loading_flag_witness:
  "loading (state (run [cats] world0)) \<and> length (pending (run [cats] world0)) = 1
   \<and> loadStories_enter Detached first_load = first_load
   \<and> state (loadStories_enter FromInit first_load) = state first_load
   \<and> \<not> loading (state (loadStories_resume FromInit (Inr (JsonPage (Some 2) (Some [A, B]))) first_load))
   \<and> \<not> loading (state (loadStories_resume FromInit (Inl NetworkError) first_load))"
  using loading_flag [of "[cats]" first_load FromInit "Inr (JsonPage (Some 2) (Some [A, B]))"]
    loading_flag [of "[cats]" first_load FromInit "Inl NetworkError"]
  by (simp only: first_load_def [symmetric]) (simp add: first_load_eq world0_def state0_def)

text \<open>
  Claim C3 as stated fails for the guard: the dropped call returns before the \<open>try\<close>,
  so \<open>loading\<close> stays true.
\<close>

theorem guard_keeps_loading:
  "loading (state first_load) \<and> loading (state (loadStories_enter Detached first_load))"
  by (simp add: first_load_eq world0_def state0_def loadStories_enter_def after_loadStories_def)

section \<open>A load that fails\<close>

text \<open>
  Claim C4 at the first load (offset 0) when the request fails: rejected, answered with
  an error status, or answered with a body that is not JSON. \<open>fetchStories\<close> turns each
  into the empty page, so \<open>loadStories\<close> shows an empty grid and not the failure view;
  the list is empty, \<open>hasMore\<close> and \<open>loading\<close> are false, and there is no retry button
  to click. A failed "more" load keeps the list and its cards, and ends with \<open>hasMore\<close>
  and \<open>loading\<close> false.
\<close>

theorem failed_first_load:
  "offset (state first_load) = 0
   \<and> grid (step (StoriesResponse 0 Rejected) first_load) = GridCards []
   \<and> grid (step (StoriesResponse 0 (Replied False None)) first_load) = GridCards []
   \<and> grid (step (StoriesResponse 0 (Replied True None)) first_load) = GridCards []
   \<and> stories (state (step (StoriesResponse 0 Rejected) first_load)) = []
   \<and> \<not> hasMore (state (step (StoriesResponse 0 Rejected) first_load))
   \<and> \<not> loading (state (step (StoriesResponse 0 Rejected) first_load))
   \<and> step ClickRetry (step (StoriesResponse 0 Rejected) first_load)
       = step (StoriesResponse 0 Rejected) first_load
   \<and> stories (state (run [ClickMore, StoriesResponse 0 Rejected] loaded5)) = [A, B]
   \<and> grid (run [ClickMore, StoriesResponse 0 Rejected] loaded5) = GridCards [A, B]
   \<and> \<not> hasMore (state (run [ClickMore, StoriesResponse 0 Rejected] loaded5))
   \<and> \<not> loading (state (run [ClickMore, StoriesResponse 0 Rejected] loaded5))"
proof -
  have first: "offset (state first_load) = 0
   \<and> grid (step (StoriesResponse 0 Rejected) first_load) = GridCards []
   \<and> grid (step (StoriesResponse 0 (Replied False None)) first_load) = GridCards []
   \<and> grid (step (StoriesResponse 0 (Replied True None)) first_load) = GridCards []
   \<and> stories (state (step (StoriesResponse 0 Rejected) first_load)) = []
   \<and> \<not> hasMore (state (step (StoriesResponse 0 Rejected) first_load))
   \<and> \<not> loading (state (step (StoriesResponse 0 Rejected) first_load))
   \<and> step ClickRetry (step (StoriesResponse 0 Rejected) first_load)
       = step (StoriesResponse 0 Rejected) first_load"
    by (simp add: first_load_eq world0_def state0_def handler_defs fetch_defs value_defs Let_def)
  have more: "stories (state (run [ClickMore, StoriesResponse 0 Rejected] loaded5)) = [A, B]
   \<and> grid (run [ClickMore, StoriesResponse 0 Rejected] loaded5) = GridCards [A, B]
   \<and> \<not> hasMore (state (run [ClickMore, StoriesResponse 0 Rejected] loaded5))
   \<and> \<not> loading (state (run [ClickMore, StoriesResponse 0 Rejected] loaded5))"
    by (simp only: loaded5_eq loaded_eq)
       (simp add: world0_def state0_def handler_defs fetch_defs value_defs Let_def)
  show ?thesis using first more by blast
qed

section \<open>A filter changed during a load\<close>

lemma state_response:
  "k < length (pending w) \<Longrightarrow>
   state (step (StoriesResponse k r) w)
     = state (loadStories_resume Detached (fetchStories r) (w\<lparr>pending := []\<rparr>))"
  using state_resume [of "snd (pending w ! k)" "fetchStories r" "w\<lparr>pending := remove_nth k (pending w)\<rparr>"]
  by simp

lemma issued_response: "issued (step (StoriesResponse k r) w) = issued w"
  by (simp add: loadStories_resume_def loadStories_try_def after_loadStories_def
      updateMeta_enter_def renderStories_def updateStatStories_def updateMoreButton_def Let_def
      split: caller.split sum.split stories_json.split)

lemma state_resume_cong:
  "state w1 = state w2 \<Longrightarrow>
   state (loadStories_resume Detached res (w1\<lparr>pending := []\<rparr>))
     = state (loadStories_resume Detached res (w2\<lparr>pending := []\<rparr>))"
  by (simp add: loadStories_resume_def loadStories_try_def after_loadStories_def
      renderStories_def updateStatStories_def updateMoreButton_def Let_def
      split: sum.split stories_json.split)

lemma click_while_loading:
  "loading (state w) \<Longrightarrow> cat \<in> set (categories (state w)) \<Longrightarrow>
   newCat \<noteq> category (state w) \<Longrightarrow>
   state (step (ClickCategory cat newCat) w)
     = (state w)\<lparr>category := newCat, offset := 0, stories := []\<rparr>
   \<and> issued (step (ClickCategory cat newCat) w) = issued w
   \<and> pending (step (ClickCategory cat newCat) w) = pending w"
  by (simp add: category_click_def updateStatCategory_def loadStories_enter_def after_loadStories_def)

text \<open>
  Claim C6, as the code has it. At most one page request is in flight in every page
  reached from the start, so answers arrive in the order of their requests. Nothing
  ties an answer to the filter it was asked under: the state after an answer depends on
  the state it meets and on the answer only, not on which request is pending. A click
  on another category during a load sets the category to the name read from the
  button, sets offset to 0 and empties the list, and sends no request, since the guard
  drops the call; the answer to the earlier request then becomes the list shown under
  the new category, with offset still 0 and no request sent in between. A click on the
  button of the current category, or on a button that does not exist, changes nothing.
\<close>

theorem stale_page_applied:
  "length (pending (run es world0)) \<le> 1
   \<and> (state w1 = state w2 \<and> k1 < length (pending w1) \<and> k2 < length (pending w2) \<longrightarrow>
        state (step (StoriesResponse k1 r) w1) = state (step (StoriesResponse k2 r) w2))
   \<and> (loading (state w) \<and> cat \<in> set (categories (state w)) \<and> newCat \<noteq> category (state w)
        \<and> k < length (pending w) \<longrightarrow>
        state (step (ClickCategory cat newCat) w)
          = (state w)\<lparr>category := newCat, offset := 0, stories := []\<rparr>
        \<and> issued (step (ClickCategory cat newCat) w) = issued w
        \<and> pending (step (ClickCategory cat newCat) w) = pending w
        \<and> state (run [ClickCategory cat newCat, StoriesResponse k (Replied True (Some (JsonPage t i)))] w)
          = (state w)\<lparr>category := newCat, offset := 0, stories := items_or_empty i,
                       hasMore := (int (length (items_or_empty i)) < total_or_zero t),
                       loading := False\<rparr>
        \<and> issued (run [ClickCategory cat newCat, StoriesResponse k (Replied True (Some (JsonPage t i)))] w) = issued w)
   \<and> (newCat = category (state w) \<longrightarrow> step (ClickCategory cat newCat) w = w)
   \<and> (cat \<notin> set (categories (state w)) \<longrightarrow> step (ClickCategory cat newCat) w = w)"
proof -
  have "one_flight (run es world0)"
    by (rule one_flight_run) (rule one_flight_world0)
  then have a: "length (pending (run es world0)) \<le> 1"
    by (simp add: one_flight_def split: if_splits)
  have b: "state w1 = state w2 \<and> k1 < length (pending w1) \<and> k2 < length (pending w2) \<longrightarrow>
        state (step (StoriesResponse k1 r) w1) = state (step (StoriesResponse k2 r) w2)"
  proof (intro impI, elim conjE)
    assume e: "state w1 = state w2" and k1: "k1 < length (pending w1)"
      and k2: "k2 < length (pending w2)"
    show "state (step (StoriesResponse k1 r) w1) = state (step (StoriesResponse k2 r) w2)"
      unfolding state_response [OF k1] state_response [OF k2]
      by (rule state_resume_cong [OF e])
  qed
  have c: "loading (state w) \<and> cat \<in> set (categories (state w)) \<and> newCat \<noteq> category (state w)
        \<and> k < length (pending w) \<longrightarrow>
        state (step (ClickCategory cat newCat) w)
          = (state w)\<lparr>category := newCat, offset := 0, stories := []\<rparr>
        \<and> issued (step (ClickCategory cat newCat) w) = issued w
        \<and> pending (step (ClickCategory cat newCat) w) = pending w
        \<and> state (run [ClickCategory cat newCat, StoriesResponse k (Replied True (Some (JsonPage t i)))] w)
          = (state w)\<lparr>category := newCat, offset := 0, stories := items_or_empty i,
                       hasMore := (int (length (items_or_empty i)) < total_or_zero t),
                       loading := False\<rparr>
        \<and> issued (run [ClickCategory cat newCat, StoriesResponse k (Replied True (Some (JsonPage t i)))] w) = issued w"
  proof (intro impI, elim conjE)
    assume h: "loading (state w)" "cat \<in> set (categories (state w))"
      "newCat \<noteq> category (state w)" "k < length (pending w)"
    define w' where "w' = step (ClickCategory cat newCat) w"
    have s: "state w' = (state w)\<lparr>category := newCat, offset := 0, stories := []\<rparr>"
      and i: "issued w' = issued w" and p: "pending w' = pending w"
      unfolding w'_def using click_while_loading [OF h(1,2,3)] by simp_all
    have k: "k < length (pending w')" using h(4) p by simp
    have f: "fetchStories (Replied True (Some (JsonPage t i))) = Inr (JsonPage t i)"
      by (simp add: fetchStories_def fetch_json_def)
    have "state (step (StoriesResponse k (Replied True (Some (JsonPage t i)))) w')
          = state (loadStories_resume Detached (Inr (JsonPage t i)) (w'\<lparr>pending := []\<rparr>))"
      unfolding state_response [OF k] f by (rule refl)
    then have after: "state (step (StoriesResponse k (Replied True (Some (JsonPage t i)))) w')
          = (state w)\<lparr>category := newCat, offset := 0, stories := items_or_empty i,
                       hasMore := (int (length (items_or_empty i)) < total_or_zero t),
                       loading := False\<rparr>"
      by (simp add: s loadStories_resume_def loadStories_try_def after_loadStories_def
          renderStories_def updateStatStories_def updateMoreButton_def Let_def)
    have sent: "issued (step (StoriesResponse k (Replied True (Some (JsonPage t i)))) w') = issued w"
      using issued_response [of k "Replied True (Some (JsonPage t i))" w'] i by simp
    have r: "run [ClickCategory cat newCat, StoriesResponse k (Replied True (Some (JsonPage t i)))] w
       = step (StoriesResponse k (Replied True (Some (JsonPage t i)))) w'"
      unfolding w'_def by simp
    show "state (step (ClickCategory cat newCat) w)
          = (state w)\<lparr>category := newCat, offset := 0, stories := []\<rparr>
        \<and> issued (step (ClickCategory cat newCat) w) = issued w
        \<and> pending (step (ClickCategory cat newCat) w) = pending w
        \<and> state (run [ClickCategory cat newCat, StoriesResponse k (Replied True (Some (JsonPage t i)))] w)
          = (state w)\<lparr>category := newCat, offset := 0, stories := items_or_empty i,
                       hasMore := (int (length (items_or_empty i)) < total_or_zero t),
                       loading := False\<rparr>
        \<and> issued (run [ClickCategory cat newCat, StoriesResponse k (Replied True (Some (JsonPage t i)))] w) = issued w"
      unfolding r using s i p after sent unfolding w'_def by simp
  qed
  have d: "newCat = category (state w) \<longrightarrow> step (ClickCategory cat newCat) w = w"
    "cat \<notin> set (categories (state w)) \<longrightarrow> step (ClickCategory cat newCat) w = w"
    by (simp_all add: category_click_def)
  show ?thesis using a b c d by blast
qed

text \<open>The first load in flight, a click on "Tech", then the answer for "All".\<close>

theorem stale_page_applied_witness:
  "length (pending (run [cats] world0)) \<le> 1
   \<and> state first_load = state first_load \<and> 0 < length (pending first_load)
   \<and> loading (state first_load) \<and> ''Tech'' \<in> set (categories (state first_load))
   \<and> ''Tech'' \<noteq> category (state first_load)
   \<and> category (state (step (ClickCategory ''Tech'' ''Tech'') first_load)) = ''Tech''
   \<and> offset (state (step (ClickCategory ''Tech'' ''Tech'') first_load)) = 0
   \<and> stories (state (step (ClickCategory ''Tech'' ''Tech'') first_load)) = []
   \<and> issued (step (ClickCategory ''Tech'' ''Tech'') first_load) = issued first_load
   \<and> stories (state (run [ClickCategory ''Tech'' ''Tech'',
         StoriesResponse 0 (Replied True (Some (JsonPage (Some 2) (Some [A, B]))))] first_load)) = [A, B]
   \<and> category (state (run [ClickCategory ''Tech'' ''Tech'',
         StoriesResponse 0 (Replied True (Some (JsonPage (Some 2) (Some [A, B]))))] first_load)) = ''Tech''"
proof -
  have v: "loading (state first_load)" "''Tech'' \<in> set (categories (state first_load))"
    "''Tech'' \<noteq> category (state first_load)" "0 < length (pending first_load)"
    by (simp_all add: first_load_eq world0_def state0_def)
  have r: "run [cats] world0 = first_load"
    by (simp add: first_load_def)
  note t = stale_page_applied [where es = "[cats]" and ?w1.0 = first_load and ?w2.0 = first_load
      and ?k1.0 = 0 and ?k2.0 = 0 and r = Rejected and w = first_load and cat = "''Tech''"
      and newCat = "''Tech''" and k = 0 and t = "Some 2" and i = "Some [A, B]"]
  have b: "state (step (ClickCategory ''Tech'' ''Tech'') first_load)
          = (state first_load)\<lparr>category := ''Tech'', offset := 0, stories := []\<rparr>
        \<and> issued (step (ClickCategory ''Tech'' ''Tech'') first_load) = issued first_load
        \<and> state (run [ClickCategory ''Tech'' ''Tech'',
              StoriesResponse 0 (Replied True (Some (JsonPage (Some 2) (Some [A, B]))))] first_load)
          = (state first_load)\<lparr>category := ''Tech'', offset := 0,
               stories := items_or_empty (Some [A, B]),
               hasMore := (int (length (items_or_empty (Some [A, B]))) < total_or_zero (Some 2)),
               loading := False\<rparr>"
    using t v by blast
  show ?thesis
    by (simp only: b r) (simp add: first_load_eq world0_def state0_def items_or_empty_def)
qed

text \<open>
  Claim C6 as stated fails: the only request ever sent asked for category "All"; after
  the click on "Tech" its answer is the list of category "Tech", and nothing is pending
  that could replace it.
\<close>

theorem stale_page_overwrites:
  "map req_category (issued first_load) = [''All'']
   \<and> map req_category (issued (run [ClickCategory ''Tech'' ''Tech'',
          StoriesResponse 0 (page 2 [A, B])] first_load)) = [''All'']
   \<and> category (state (run [ClickCategory ''Tech'' ''Tech'',
          StoriesResponse 0 (page 2 [A, B])] first_load)) = ''Tech''
   \<and> stories (state (run [ClickCategory ''Tech'' ''Tech'',
          StoriesResponse 0 (page 2 [A, B])] first_load)) = [A, B]
   \<and> pending (run [ClickCategory ''Tech'' ''Tech'',
          StoriesResponse 0 (page 2 [A, B])] first_load) = []"
  by (simp add: first_load_eq world0_def state0_def page_def handler_defs fetch_defs value_defs Let_def)

section \<open>The debounced search\<close>

lemma run_append: "run (es @ fs) w = run fs (run es w)"
  by (induction es arbitrary: w) simp_all

lemma keystroke_quiet:
  "g < 300 \<Longrightarrow>
   state (run [InputSearch t, Elapse g] w) = state w
   \<and> issued (run [InputSearch t, Elapse g] w) = issued w
   \<and> pending (run [InputSearch t, Elapse g] w) = pending w"
  by (simp add: handleSearch_def elapse_def Let_def split: option.split prod.split)

lemma keystrokes_quiet:
  "\<forall>k \<in> set ks. snd k < 300 \<Longrightarrow>
   state (run (keystrokes ks) w) = state w
   \<and> issued (run (keystrokes ks) w) = issued w
   \<and> pending (run (keystrokes ks) w) = pending w"
proof (induction ks arbitrary: w)
  case Nil
  then show ?case by simp
next
  case (Cons k ks)
  obtain t g where k: "k = (t, g)" by (cases k)
  have g: "g < 300" using Cons.prems k by simp
  have rest: "\<forall>k \<in> set ks. snd k < 300" using Cons.prems by simp
  have "run (keystrokes (k # ks)) w = run (keystrokes ks) (run [InputSearch t, Elapse g] w)"
    by (simp add: k)
  then show ?case
    using Cons.IH [OF rest, of "run [InputSearch t, Elapse g] w"] keystroke_quiet [OF g, of t w]
    by simp
qed

lemma last_keystroke_state:
  "300 \<le> d \<Longrightarrow>
   state (run [InputSearch final, Elapse d] w)
     = (state w)\<lparr>query := final, offset := 0, stories := [], loading := True\<rparr>
   \<and> issued (run [InputSearch final, Elapse d] w)
     = (if loading (state w) then issued w
        else issued w @ [\<lparr>req_category = or_default (category (state w)) ''All'', req_q = final,
                           req_limit = limit (state w), req_offset = 0\<rparr>])
   \<and> pending (run [InputSearch final, Elapse d] w)
     = (if loading (state w) then pending w
        else pending w @ [(\<lparr>req_category = or_default (category (state w)) ''All'', req_q = final,
                           req_limit = limit (state w), req_offset = 0\<rparr>, Detached)])
   \<and> searchTimeout (run [InputSearch final, Elapse d] w) = None"
  by (simp add: handleSearch_def elapse_def search_timer_def loadStories_enter_def
      after_loadStories_def stories_request_def or_default_def Let_def
      split: option.split prod.split)

text \<open>
  Claim C7, as the code has it. Take keystrokes each followed by less than 300 ms of
  quiet, then a last keystroke followed by at least 300 ms. While the keys are typed
  nothing happens to the state and nothing is sent. Once the last timer has run, the
  state has the final text as query, offset 0 and an empty list, and no timer is left.
  If no load was in progress, exactly one request was sent over the whole sequence, by
  that timer, and it asks for the final text at offset 0. If a load was in progress,
  the timer's call is dropped by the guard: nothing is sent and nothing new is pending.
\<close>

theorem search_debounced:
  "((\<forall>k \<in> set ks. snd k < 300) \<and> 300 \<le> d \<and> \<not> loading (state w) \<longrightarrow>
     issued (run (keystrokes ks @ [InputSearch final, Elapse d]) w)
       = issued w @ [\<lparr>req_category = or_default (category (state w)) ''All'', req_q = final,
                        req_limit = limit (state w), req_offset = 0\<rparr>]
     \<and> query (state (run (keystrokes ks @ [InputSearch final, Elapse d]) w)) = final
     \<and> offset (state (run (keystrokes ks @ [InputSearch final, Elapse d]) w)) = 0
     \<and> stories (state (run (keystrokes ks @ [InputSearch final, Elapse d]) w)) = []
     \<and> searchTimeout (run (keystrokes ks @ [InputSearch final, Elapse d]) w) = None
     \<and> pending (run (keystrokes ks @ [InputSearch final, Elapse d]) w)
       = pending w @ [(\<lparr>req_category = or_default (category (state w)) ''All'', req_q = final,
                        req_limit = limit (state w), req_offset = 0\<rparr>, Detached)])
   \<and> ((\<forall>k \<in> set ks. snd k < 300) \<longrightarrow>
     state (run (keystrokes ks) w) = state w
     \<and> issued (run (keystrokes ks) w) = issued w
     \<and> pending (run (keystrokes ks) w) = pending w)
   \<and> ((\<forall>k \<in> set ks. snd k < 300) \<and> 300 \<le> d \<longrightarrow>
     state (run (keystrokes ks @ [InputSearch final, Elapse d]) w)
       = (state w)\<lparr>query := final, offset := 0, stories := [], loading := True\<rparr>
     \<and> searchTimeout (run (keystrokes ks @ [InputSearch final, Elapse d]) w) = None)
   \<and> ((\<forall>k \<in> set ks. snd k < 300) \<and> 300 \<le> d \<and> loading (state w) \<longrightarrow>
     issued (run (keystrokes ks @ [InputSearch final, Elapse d]) w) = issued w
     \<and> pending (run (keystrokes ks @ [InputSearch final, Elapse d]) w) = pending w
     \<and> query (state (run (keystrokes ks @ [InputSearch final, Elapse d]) w)) = final
     \<and> offset (state (run (keystrokes ks @ [InputSearch final, Elapse d]) w)) = 0
     \<and> stories (state (run (keystrokes ks @ [InputSearch final, Elapse d]) w)) = []
     \<and> loading (state (run (keystrokes ks @ [InputSearch final, Elapse d]) w)))"
proof -
  define w' where "w' = run (keystrokes ks) w"
  have r: "run (keystrokes ks @ [InputSearch final, Elapse d]) w = run [InputSearch final, Elapse d] w'"
    unfolding w'_def by (rule run_append)
  have quiet: "(\<forall>k \<in> set ks. snd k < 300) \<longrightarrow>
     state w' = state w \<and> issued w' = issued w \<and> pending w' = pending w"
    unfolding w'_def using keystrokes_quiet [of ks w] by blast
  have last: "300 \<le> d \<longrightarrow>
     state (run [InputSearch final, Elapse d] w')
       = (state w')\<lparr>query := final, offset := 0, stories := [], loading := True\<rparr>
     \<and> issued (run [InputSearch final, Elapse d] w')
       = (if loading (state w') then issued w'
          else issued w' @ [\<lparr>req_category = or_default (category (state w')) ''All'',
                 req_q = final, req_limit = limit (state w'), req_offset = 0\<rparr>])
     \<and> pending (run [InputSearch final, Elapse d] w')
       = (if loading (state w') then pending w'
          else pending w' @ [(\<lparr>req_category = or_default (category (state w')) ''All'',
                 req_q = final, req_limit = limit (state w'), req_offset = 0\<rparr>, Detached)])
     \<and> searchTimeout (run [InputSearch final, Elapse d] w') = None"
    using last_keystroke_state [of d final w'] by blast
  have idle: "(\<forall>k \<in> set ks. snd k < 300) \<and> 300 \<le> d \<and> \<not> loading (state w) \<longrightarrow>
     issued (run (keystrokes ks @ [InputSearch final, Elapse d]) w)
       = issued w @ [\<lparr>req_category = or_default (category (state w)) ''All'', req_q = final,
                        req_limit = limit (state w), req_offset = 0\<rparr>]
     \<and> query (state (run (keystrokes ks @ [InputSearch final, Elapse d]) w)) = final
     \<and> offset (state (run (keystrokes ks @ [InputSearch final, Elapse d]) w)) = 0
     \<and> stories (state (run (keystrokes ks @ [InputSearch final, Elapse d]) w)) = []
     \<and> searchTimeout (run (keystrokes ks @ [InputSearch final, Elapse d]) w) = None
     \<and> pending (run (keystrokes ks @ [InputSearch final, Elapse d]) w)
       = pending w @ [(\<lparr>req_category = or_default (category (state w)) ''All'', req_q = final,
                        req_limit = limit (state w), req_offset = 0\<rparr>, Detached)]"
    unfolding r using quiet last by simp
  have typing: "(\<forall>k \<in> set ks. snd k < 300) \<longrightarrow>
     state (run (keystrokes ks) w) = state w
     \<and> issued (run (keystrokes ks) w) = issued w
     \<and> pending (run (keystrokes ks) w) = pending w"
    using quiet unfolding w'_def by simp
  have any: "(\<forall>k \<in> set ks. snd k < 300) \<and> 300 \<le> d \<longrightarrow>
     state (run (keystrokes ks @ [InputSearch final, Elapse d]) w)
       = (state w)\<lparr>query := final, offset := 0, stories := [], loading := True\<rparr>
     \<and> searchTimeout (run (keystrokes ks @ [InputSearch final, Elapse d]) w) = None"
    unfolding r using quiet last by simp
  have busy: "(\<forall>k \<in> set ks. snd k < 300) \<and> 300 \<le> d \<and> loading (state w) \<longrightarrow>
     issued (run (keystrokes ks @ [InputSearch final, Elapse d]) w) = issued w
     \<and> pending (run (keystrokes ks @ [InputSearch final, Elapse d]) w) = pending w
     \<and> query (state (run (keystrokes ks @ [InputSearch final, Elapse d]) w)) = final
     \<and> offset (state (run (keystrokes ks @ [InputSearch final, Elapse d]) w)) = 0
     \<and> stories (state (run (keystrokes ks @ [InputSearch final, Elapse d]) w)) = []
     \<and> loading (state (run (keystrokes ks @ [InputSearch final, Elapse d]) w))"
    unfolding r using quiet last by simp
  show ?thesis using idle typing any busy by blast
qed

text \<open>Typing "n", "ne", "new" after a first page has loaded, and during the first load.\<close>

theorem search_debounced_witness:
  "(100::nat) < 300 \<and> (250::nat) < 300 \<and> (300::nat) \<le> 300
   \<and> \<not> loading (state loaded2)
   \<and> map req_q (issued (run (keystrokes [(''n'', 100), (''ne'', 250)] @ [InputSearch ''new'', Elapse 300]) loaded2))
       = [[], ''new'']
   \<and> query (state (run (keystrokes [(''n'', 100), (''ne'', 250)] @ [InputSearch ''new'', Elapse 300]) loaded2))
       = ''new''
   \<and> loading (state first_load)
   \<and> issued (run (keystrokes [(''n'', 100), (''ne'', 250)] @ [InputSearch ''new'', Elapse 300]) first_load)
       = issued first_load
   \<and> query (state (run (keystrokes [(''n'', 100), (''ne'', 250)] @ [InputSearch ''new'', Elapse 300]) first_load))
       = ''new''
   \<and> stories (state (run (keystrokes [(''n'', 100), (''ne'', 250)]) loaded2)) = [A, B]"
proof -
  have g: "\<forall>k \<in> set [(''n'', 100::nat), (''ne'', 250)]. snd k < 300" by simp
  have v: "\<not> loading (state loaded2)" "stories (state loaded2) = [A, B]"
    "issued loaded2 = [\<lparr>req_category = ''All'', req_q = [], req_limit = 30, req_offset = 0\<rparr>]"
    "category (state loaded2) = ''All''" "limit (state loaded2) = 30"
    by (simp_all only: loaded2_eq loaded_eq) (simp_all add: world0_def state0_def)
  have l: "loading (state first_load)"
    by (simp add: first_load_eq world0_def state0_def)
  note t2 = search_debounced [where ks = "[(''n'', 100), (''ne'', 250)]" and d = 300
      and w = loaded2 and final = "''new''"]
  note t1 = search_debounced [where ks = "[(''n'', 100), (''ne'', 250)]" and d = 300
      and w = first_load and final = "''new''"]
  have a: "issued (run (keystrokes [(''n'', 100), (''ne'', 250)] @ [InputSearch ''new'', Elapse 300]) loaded2)
       = issued loaded2 @ [\<lparr>req_category = or_default (category (state loaded2)) ''All'',
            req_q = ''new'', req_limit = limit (state loaded2), req_offset = 0\<rparr>]"
    and b: "query (state (run (keystrokes [(''n'', 100), (''ne'', 250)] @ [InputSearch ''new'', Elapse 300]) loaded2))
       = ''new''"
    and c: "state (run (keystrokes [(''n'', 100), (''ne'', 250)]) loaded2) = state loaded2"
    using t2 g v(1) by simp_all
  have e: "issued (run (keystrokes [(''n'', 100), (''ne'', 250)] @ [InputSearch ''new'', Elapse 300]) first_load)
       = issued first_load"
    and f: "query (state (run (keystrokes [(''n'', 100), (''ne'', 250)] @ [InputSearch ''new'', Elapse 300]) first_load))
       = ''new''"
    using t1 g l by simp_all
  show ?thesis
    unfolding a b c e f using v l by (simp add: or_default_def)
qed

text \<open>
  Claim C7 as stated fails while a load is in progress: the timer's \<open>loadStories()\<close>
  is dropped by the guard, so the query is the final text but no request is sent for it.
\<close>

theorem search_dropped_while_loading:
  "loading (state first_load)
   \<and> issued (run [InputSearch ''a'', Elapse 300] first_load) = issued first_load
   \<and> map req_q (issued (run [InputSearch ''a'', Elapse 300] first_load)) = [[]]
   \<and> query (state (run [InputSearch ''a'', Elapse 300] first_load)) = ''a''
   \<and> searchTimeout (run [InputSearch ''a'', Elapse 300] first_load) = None"
  by (simp add: first_load_eq world0_def state0_def handler_defs value_defs Let_def)

section \<open>Refresh\<close>

lemma click_refresh_fields:
  assumes "w' = step ClickRefresh w" and "\<not> refresh_disabled w"
  shows "refresh_disabled w'" and "refresh_pending w'" and "state w' = state w"
    and "pending w' = pending w" and "issued w' = issued w"
    and "meta_pending w' = meta_pending w" and "toast w' = toast w" and "clock w' = clock w"
  using assms by (simp_all add: refreshData_enter_def)

lemma refresh_failed_fields:
  assumes "w' = step (RefreshResponse r) w" and "refresh_pending w"
    and "r = Rejected \<or> r = Replied ok None \<or> r = Replied ok (Some RefreshNull)
         \<or> r = Replied ok (Some (RefreshObj False a n))"
  shows "\<not> refresh_disabled w'" and "state w' = state w" and "issued w' = issued w"
    and "toast w' = Some (ToastRefreshFailed, clock w + 3300)" and "clock w' = clock w"
  using assms
  by (auto simp add: refreshData_resume_def refresh_catch_def refresh_finally_def
      showToast_def fetch_json_def)

lemma refresh_ok_fields:
  assumes "w' = step (RefreshResponse (Replied ok (Some (RefreshObj True a n)))) w"
    and "refresh_pending w" and "\<not> loading (state w)"
  shows "state w' = (state w)\<lparr>offset := 0, stories := [], loading := True\<rparr>"
    and "pending w' = pending w @ [(stories_request ((state w)\<lparr>offset := 0\<rparr>), FromRefresh a n)]"
    and "issued w' = issued w @ [stories_request ((state w)\<lparr>offset := 0\<rparr>)]"
    and "refresh_disabled w' = refresh_disabled w" and "meta_pending w' = meta_pending w"
    and "toast w' = toast w" and "clock w' = clock w"
  using assms
  by (simp_all add: refreshData_resume_def loadStories_enter_def fetch_json_def
      stories_request_def Let_def)

lemma page_answer_fields:
  assumes "w' = step (StoriesResponse (length ps) (Replied True (Some (JsonPage t i)))) w"
    and "pending w = ps @ [(rq, FromRefresh a n)]"
  shows "state w' = (state w)
           \<lparr>stories := (if offset (state w) = 0 then items_or_empty i
                        else stories (state w) @ items_or_empty i),
            hasMore := (int (length (if offset (state w) = 0 then items_or_empty i
                        else stories (state w) @ items_or_empty i)) < total_or_zero t),
            loading := False\<rparr>"
    and "meta_pending w' = meta_pending w @ [FromRefresh a n]"
    and "refresh_disabled w' = refresh_disabled w" and "toast w' = toast w"
    and "clock w' = clock w" and "issued w' = issued w"
  using assms
  by (simp_all add: loadStories_resume_def loadStories_try_def after_loadStories_def
      updateMeta_enter_def renderStories_def updateStatStories_def updateMoreButton_def
      fetchStories_def fetch_json_def Let_def)

lemma meta_answer_fields:
  assumes "w' = step (MetaResponse (length mp) m) w"
    and "meta_pending w = mp @ [FromRefresh a n]"
  shows "state w' = state w" and "toast w' = Some (ToastAdded a n, clock w + 3300)"
    and "\<not> refresh_disabled w'" and "clock w' = clock w" and "issued w' = issued w"
  using assms
  by (simp_all add: updateMeta_resume_def after_updateMeta_def refresh_finally_def
      showToast_def Let_def split: sum.split meta_json.split option.split)

lemma toast_transient:
  "toast w = Some (m, clock w + 3300) \<Longrightarrow>
   toast (step (Elapse d) w) = (if d < 3300 then Some (m, clock w + 3300) else None)"
  by (simp add: elapse_def search_timer_def loadStories_enter_def after_loadStories_def Let_def
      split: option.split)

lemma refresh_ok_any:
  assumes "w' = step (RefreshResponse (Replied ok (Some (RefreshObj True a n)))) w"
    and "refresh_pending w"
  shows "state w' = (state w)\<lparr>offset := 0, stories := [], loading := True\<rparr>"
    and "refresh_disabled w' = refresh_disabled w" and "toast w' = toast w"
    and "clock w' = clock w"
  using assms
  by (simp_all add: refreshData_resume_def loadStories_enter_def after_loadStories_def
      updateMeta_enter_def fetch_json_def Let_def)

lemma refresh_ok_busy:
  assumes "w' = step (RefreshResponse (Replied ok (Some (RefreshObj True a n)))) w"
    and "refresh_pending w" and "loading (state w)"
  shows "issued w' = issued w" and "pending w' = pending w"
    and "meta_pending w' = meta_pending w @ [FromRefresh a n]"
  using assms
  by (simp_all add: refreshData_resume_def loadStories_enter_def after_loadStories_def
      updateMeta_enter_def fetch_json_def)

text \<open>
  Claim C8, as the code has it. A click on the enabled refresh button disables it and
  changes neither state nor toast. If the POST fails (rejected, a body that is not
  JSON, the value \<open>null\<close>, or \<open>ok\<close> false), the error toast is shown, state and requests
  are as before the click, the button is enabled again, and the toast is gone after
  3300 ms. If the POST succeeds, offset is 0 and the list empty whether or not a load
  is in progress, the button stays disabled and no toast is shown yet. With no load in
  progress one request for page 0 is sent; its page becomes the list, still with no
  toast; after the meta answer the success toast carries the server's counts and the
  button is enabled again. With a load in progress the call is dropped: nothing is
  sent, the meta request follows at once, and after its answer the toast is shown and
  the button enabled, with offset 0 and the list still empty. Each toast is still shown
  3299 ms after it appeared and gone after 3300 ms.
\<close>

theorem refresh_cycle:
  "(\<not> refresh_disabled w
      \<and> (r = Rejected \<or> r = Replied ok None \<or> r = Replied ok (Some RefreshNull)
           \<or> r = Replied ok (Some (RefreshObj False a n))) \<longrightarrow>
      refresh_disabled (step ClickRefresh w)
      \<and> \<not> refresh_disabled (run [ClickRefresh, RefreshResponse r] w)
      \<and> state (run [ClickRefresh, RefreshResponse r] w) = state w
      \<and> issued (run [ClickRefresh, RefreshResponse r] w) = issued w
      \<and> toast (run [ClickRefresh, RefreshResponse r] w) = Some (ToastRefreshFailed, clock w + 3300)
      \<and> toast (run [ClickRefresh, RefreshResponse r, Elapse 3300] w) = None
      \<and> toast (run [ClickRefresh, RefreshResponse r, Elapse 3299] w)
          = Some (ToastRefreshFailed, clock w + 3300))
   \<and> (\<not> refresh_disabled w \<and> \<not> loading (state w) \<longrightarrow>
      refresh_disabled (step ClickRefresh w)
      \<and> refresh_disabled (run [ClickRefresh, RefreshResponse (Replied ok (Some (RefreshObj True a n)))] w)
      \<and> offset (state (run [ClickRefresh, RefreshResponse (Replied ok (Some (RefreshObj True a n)))] w)) = 0
      \<and> stories (state (run [ClickRefresh, RefreshResponse (Replied ok (Some (RefreshObj True a n)))] w)) = []
      \<and> issued (run [ClickRefresh, RefreshResponse (Replied ok (Some (RefreshObj True a n)))] w)
          = issued w @ [stories_request ((state w)\<lparr>offset := 0\<rparr>)]
      \<and> refresh_disabled (run [ClickRefresh, RefreshResponse (Replied ok (Some (RefreshObj True a n))),
            StoriesResponse (length (pending w)) (Replied True (Some (JsonPage t i)))] w)
      \<and> stories (state (run [ClickRefresh, RefreshResponse (Replied ok (Some (RefreshObj True a n))),
            StoriesResponse (length (pending w)) (Replied True (Some (JsonPage t i)))] w)) = items_or_empty i
      \<and> offset (state (run [ClickRefresh, RefreshResponse (Replied ok (Some (RefreshObj True a n))),
            StoriesResponse (length (pending w)) (Replied True (Some (JsonPage t i))),
            MetaResponse (length (meta_pending w)) m] w)) = 0
      \<and> stories (state (run [ClickRefresh, RefreshResponse (Replied ok (Some (RefreshObj True a n))),
            StoriesResponse (length (pending w)) (Replied True (Some (JsonPage t i))),
            MetaResponse (length (meta_pending w)) m] w)) = items_or_empty i
      \<and> toast (run [ClickRefresh, RefreshResponse (Replied ok (Some (RefreshObj True a n))),
            StoriesResponse (length (pending w)) (Replied True (Some (JsonPage t i))),
            MetaResponse (length (meta_pending w)) m] w) = Some (ToastAdded a n, clock w + 3300)
      \<and> \<not> refresh_disabled (run [ClickRefresh, RefreshResponse (Replied ok (Some (RefreshObj True a n))),
            StoriesResponse (length (pending w)) (Replied True (Some (JsonPage t i))),
            MetaResponse (length (meta_pending w)) m] w)
      \<and> toast (run [ClickRefresh, RefreshResponse (Replied ok (Some (RefreshObj True a n))),
            StoriesResponse (length (pending w)) (Replied True (Some (JsonPage t i))),
            MetaResponse (length (meta_pending w)) m, Elapse 3300] w) = None
      \<and> toast (run [ClickRefresh, RefreshResponse (Replied ok (Some (RefreshObj True a n)))] w) = toast w
      \<and> toast (run [ClickRefresh, RefreshResponse (Replied ok (Some (RefreshObj True a n))),
            StoriesResponse (length (pending w)) (Replied True (Some (JsonPage t i)))] w) = toast w
      \<and> pending (run [ClickRefresh, RefreshResponse (Replied ok (Some (RefreshObj True a n)))] w)
          = pending w @ [(stories_request ((state w)\<lparr>offset := 0\<rparr>), FromRefresh a n)]
      \<and> toast (run [ClickRefresh, RefreshResponse (Replied ok (Some (RefreshObj True a n))),
            StoriesResponse (length (pending w)) (Replied True (Some (JsonPage t i))),
            MetaResponse (length (meta_pending w)) m, Elapse 3299] w) = Some (ToastAdded a n, clock w + 3300))
   \<and> (\<not> refresh_disabled w \<longrightarrow>
      toast (step ClickRefresh w) = toast w
      \<and> state (step ClickRefresh w) = state w
      \<and> state (run [ClickRefresh, RefreshResponse (Replied ok (Some (RefreshObj True a n)))] w)
          = (state w)\<lparr>offset := 0, stories := [], loading := True\<rparr>
      \<and> refresh_disabled (run [ClickRefresh, RefreshResponse (Replied ok (Some (RefreshObj True a n)))] w)
      \<and> toast (run [ClickRefresh, RefreshResponse (Replied ok (Some (RefreshObj True a n)))] w) = toast w)
   \<and> (\<not> refresh_disabled w \<and> loading (state w) \<longrightarrow>
      issued (run [ClickRefresh, RefreshResponse (Replied ok (Some (RefreshObj True a n)))] w) = issued w
      \<and> pending (run [ClickRefresh, RefreshResponse (Replied ok (Some (RefreshObj True a n)))] w) = pending w
      \<and> meta_pending (run [ClickRefresh, RefreshResponse (Replied ok (Some (RefreshObj True a n)))] w)
          = meta_pending w @ [FromRefresh a n]
      \<and> state (run [ClickRefresh, RefreshResponse (Replied ok (Some (RefreshObj True a n))),
            MetaResponse (length (meta_pending w)) m] w) = (state w)\<lparr>offset := 0, stories := []\<rparr>
      \<and> issued (run [ClickRefresh, RefreshResponse (Replied ok (Some (RefreshObj True a n))),
            MetaResponse (length (meta_pending w)) m] w) = issued w
      \<and> toast (run [ClickRefresh, RefreshResponse (Replied ok (Some (RefreshObj True a n))),
            MetaResponse (length (meta_pending w)) m] w) = Some (ToastAdded a n, clock w + 3300)
      \<and> \<not> refresh_disabled (run [ClickRefresh, RefreshResponse (Replied ok (Some (RefreshObj True a n))),
            MetaResponse (length (meta_pending w)) m] w)
      \<and> toast (run [ClickRefresh, RefreshResponse (Replied ok (Some (RefreshObj True a n))),
            MetaResponse (length (meta_pending w)) m, Elapse 3300] w) = None
      \<and> toast (run [ClickRefresh, RefreshResponse (Replied ok (Some (RefreshObj True a n))),
            MetaResponse (length (meta_pending w)) m, Elapse 3299] w) = Some (ToastAdded a n, clock w + 3300))"
proof -
  have failed: "\<not> refresh_disabled w
      \<and> (r = Rejected \<or> r = Replied ok None \<or> r = Replied ok (Some RefreshNull)
           \<or> r = Replied ok (Some (RefreshObj False a n))) \<longrightarrow>
      refresh_disabled (step ClickRefresh w)
      \<and> \<not> refresh_disabled (run [ClickRefresh, RefreshResponse r] w)
      \<and> state (run [ClickRefresh, RefreshResponse r] w) = state w
      \<and> issued (run [ClickRefresh, RefreshResponse r] w) = issued w
      \<and> toast (run [ClickRefresh, RefreshResponse r] w) = Some (ToastRefreshFailed, clock w + 3300)
      \<and> toast (run [ClickRefresh, RefreshResponse r, Elapse 3300] w) = None
      \<and> toast (run [ClickRefresh, RefreshResponse r, Elapse 3299] w)
          = Some (ToastRefreshFailed, clock w + 3300)"
  proof
    assume h: "\<not> refresh_disabled w
      \<and> (r = Rejected \<or> r = Replied ok None \<or> r = Replied ok (Some RefreshNull)
           \<or> r = Replied ok (Some (RefreshObj False a n)))"
    define w1 where "w1 = step ClickRefresh w"
    define w2 where "w2 = step (RefreshResponse r) w1"
    define w3 where "w3 = step (Elapse 3300) w2"
    have d: "\<not> refresh_disabled w" using h by simp
    note c = click_refresh_fields [OF w1_def d]
    note f = refresh_failed_fields [OF w2_def c(2), of ok a n]
    have r: "r = Rejected \<or> r = Replied ok None \<or> r = Replied ok (Some RefreshNull)
           \<or> r = Replied ok (Some (RefreshObj False a n))" using h by simp
    have t: "toast w2 = Some (ToastRefreshFailed, clock w2 + 3300)"
      using f(4) [OF r] f(5) [OF r] c(8) by simp
    have e: "toast w3 = None"
      unfolding w3_def using toast_transient [OF t, of 3300] by simp
    define w3' where "w3' = step (Elapse 3299) w2"
    have e': "toast w3' = Some (ToastRefreshFailed, clock w + 3300)"
      unfolding w3'_def using toast_transient [OF t, of 3299] f(5) [OF r] c(8) by simp
    have "step ClickRefresh w = w1" "run [ClickRefresh, RefreshResponse r] w = w2"
      "run [ClickRefresh, RefreshResponse r, Elapse 3300] w = w3"
      "run [ClickRefresh, RefreshResponse r, Elapse 3299] w = w3'"
      by (simp_all add: w1_def w2_def w3_def w3'_def)
    then show "refresh_disabled (step ClickRefresh w)
      \<and> \<not> refresh_disabled (run [ClickRefresh, RefreshResponse r] w)
      \<and> state (run [ClickRefresh, RefreshResponse r] w) = state w
      \<and> issued (run [ClickRefresh, RefreshResponse r] w) = issued w
      \<and> toast (run [ClickRefresh, RefreshResponse r] w) = Some (ToastRefreshFailed, clock w + 3300)
      \<and> toast (run [ClickRefresh, RefreshResponse r, Elapse 3300] w) = None
      \<and> toast (run [ClickRefresh, RefreshResponse r, Elapse 3299] w)
          = Some (ToastRefreshFailed, clock w + 3300)"
      using c f(1) [OF r] f(2) [OF r] f(3) [OF r] f(4) [OF r] e e' by simp
  qed
  have idle: "\<not> refresh_disabled w \<and> \<not> loading (state w) \<longrightarrow>
      refresh_disabled (step ClickRefresh w)
      \<and> refresh_disabled (run [ClickRefresh, RefreshResponse (Replied ok (Some (RefreshObj True a n)))] w)
      \<and> offset (state (run [ClickRefresh, RefreshResponse (Replied ok (Some (RefreshObj True a n)))] w)) = 0
      \<and> stories (state (run [ClickRefresh, RefreshResponse (Replied ok (Some (RefreshObj True a n)))] w)) = []
      \<and> issued (run [ClickRefresh, RefreshResponse (Replied ok (Some (RefreshObj True a n)))] w)
          = issued w @ [stories_request ((state w)\<lparr>offset := 0\<rparr>)]
      \<and> refresh_disabled (run [ClickRefresh, RefreshResponse (Replied ok (Some (RefreshObj True a n))),
            StoriesResponse (length (pending w)) (Replied True (Some (JsonPage t i)))] w)
      \<and> stories (state (run [ClickRefresh, RefreshResponse (Replied ok (Some (RefreshObj True a n))),
            StoriesResponse (length (pending w)) (Replied True (Some (JsonPage t i)))] w)) = items_or_empty i
      \<and> offset (state (run [ClickRefresh, RefreshResponse (Replied ok (Some (RefreshObj True a n))),
            StoriesResponse (length (pending w)) (Replied True (Some (JsonPage t i))),
            MetaResponse (length (meta_pending w)) m] w)) = 0
      \<and> stories (state (run [ClickRefresh, RefreshResponse (Replied ok (Some (RefreshObj True a n))),
            StoriesResponse (length (pending w)) (Replied True (Some (JsonPage t i))),
            MetaResponse (length (meta_pending w)) m] w)) = items_or_empty i
      \<and> toast (run [ClickRefresh, RefreshResponse (Replied ok (Some (RefreshObj True a n))),
            StoriesResponse (length (pending w)) (Replied True (Some (JsonPage t i))),
            MetaResponse (length (meta_pending w)) m] w) = Some (ToastAdded a n, clock w + 3300)
      \<and> \<not> refresh_disabled (run [ClickRefresh, RefreshResponse (Replied ok (Some (RefreshObj True a n))),
            StoriesResponse (length (pending w)) (Replied True (Some (JsonPage t i))),
            MetaResponse (length (meta_pending w)) m] w)
      \<and> toast (run [ClickRefresh, RefreshResponse (Replied ok (Some (RefreshObj True a n))),
            StoriesResponse (length (pending w)) (Replied True (Some (JsonPage t i))),
            MetaResponse (length (meta_pending w)) m, Elapse 3300] w) = None
      \<and> toast (run [ClickRefresh, RefreshResponse (Replied ok (Some (RefreshObj True a n)))] w) = toast w
      \<and> toast (run [ClickRefresh, RefreshResponse (Replied ok (Some (RefreshObj True a n))),
            StoriesResponse (length (pending w)) (Replied True (Some (JsonPage t i)))] w) = toast w
      \<and> pending (run [ClickRefresh, RefreshResponse (Replied ok (Some (RefreshObj True a n)))] w)
          = pending w @ [(stories_request ((state w)\<lparr>offset := 0\<rparr>), FromRefresh a n)]
      \<and> toast (run [ClickRefresh, RefreshResponse (Replied ok (Some (RefreshObj True a n))),
            StoriesResponse (length (pending w)) (Replied True (Some (JsonPage t i))),
            MetaResponse (length (meta_pending w)) m, Elapse 3299] w) = Some (ToastAdded a n, clock w + 3300)"
  proof
    assume h: "\<not> refresh_disabled w \<and> \<not> loading (state w)"
    define w1 where "w1 = step ClickRefresh w"
    define w2 where "w2 = step (RefreshResponse (Replied ok (Some (RefreshObj True a n)))) w1"
    define w3 where "w3 = step (StoriesResponse (length (pending w)) (Replied True (Some (JsonPage t i)))) w2"
    define w4 where "w4 = step (MetaResponse (length (meta_pending w)) m) w3"
    define w5 where "w5 = step (Elapse 3300) w4"
    have d: "\<not> refresh_disabled w" and l: "\<not> loading (state w)" using h by simp_all
    note c = click_refresh_fields [OF w1_def d]
    have l1: "\<not> loading (state w1)" using l c(3) by simp
    note r = refresh_ok_fields [OF w2_def c(2) l1]
    have p2: "pending w2 = pending w @ [(stories_request ((state w1)\<lparr>offset := 0\<rparr>), FromRefresh a n)]"
      using r(2) c(4) by simp
    note p = page_answer_fields [OF w3_def p2]
    have m3: "meta_pending w3 = meta_pending w @ [FromRefresh a n]"
      using p(2) r(5) c(6) by simp
    note m = meta_answer_fields [OF w4_def m3]
    have t: "toast w4 = Some (ToastAdded a n, clock w4 + 3300)"
      using m(2) m(4) by simp
    have e: "toast w5 = None"
      unfolding w5_def using toast_transient [OF t, of 3300] by simp
    define w5' where "w5' = step (Elapse 3299) w4"
    have e': "toast w5' = Some (ToastAdded a n, clock w4 + 3300)"
      unfolding w5'_def using toast_transient [OF t, of 3299] by simp
    have runs: "step ClickRefresh w = w1"
      "run [ClickRefresh, RefreshResponse (Replied ok (Some (RefreshObj True a n)))] w = w2"
      "run [ClickRefresh, RefreshResponse (Replied ok (Some (RefreshObj True a n))),
            StoriesResponse (length (pending w)) (Replied True (Some (JsonPage t i)))] w = w3"
      "run [ClickRefresh, RefreshResponse (Replied ok (Some (RefreshObj True a n))),
            StoriesResponse (length (pending w)) (Replied True (Some (JsonPage t i))),
            MetaResponse (length (meta_pending w)) m] w = w4"
      "run [ClickRefresh, RefreshResponse (Replied ok (Some (RefreshObj True a n))),
            StoriesResponse (length (pending w)) (Replied True (Some (JsonPage t i))),
            MetaResponse (length (meta_pending w)) m, Elapse 3300] w = w5"
      "run [ClickRefresh, RefreshResponse (Replied ok (Some (RefreshObj True a n))),
            StoriesResponse (length (pending w)) (Replied True (Some (JsonPage t i))),
            MetaResponse (length (meta_pending w)) m, Elapse 3299] w = w5'"
      by (simp_all add: w1_def w2_def w3_def w4_def w5_def w5'_def)
    have s2: "offset (state w2) = 0" "stories (state w2) = []"
      "issued w2 = issued w @ [stories_request ((state w)\<lparr>offset := 0\<rparr>)]"
      "refresh_disabled w2" "toast w2 = toast w"
      "pending w2 = pending w @ [(stories_request ((state w)\<lparr>offset := 0\<rparr>), FromRefresh a n)]"
      using r c by simp_all
    have s3: "refresh_disabled w3" "stories (state w3) = items_or_empty i" "offset (state w3) = 0"
      "toast w3 = toast w"
      using p s2 r(1) by simp_all
    have s4: "offset (state w4) = 0" "stories (state w4) = items_or_empty i"
      "toast w4 = Some (ToastAdded a n, clock w + 3300)" "\<not> refresh_disabled w4"
      using m s3 p(5) r(7) c(8) by simp_all
    show "refresh_disabled (step ClickRefresh w)
      \<and> refresh_disabled (run [ClickRefresh, RefreshResponse (Replied ok (Some (RefreshObj True a n)))] w)
      \<and> offset (state (run [ClickRefresh, RefreshResponse (Replied ok (Some (RefreshObj True a n)))] w)) = 0
      \<and> stories (state (run [ClickRefresh, RefreshResponse (Replied ok (Some (RefreshObj True a n)))] w)) = []
      \<and> issued (run [ClickRefresh, RefreshResponse (Replied ok (Some (RefreshObj True a n)))] w)
          = issued w @ [stories_request ((state w)\<lparr>offset := 0\<rparr>)]
      \<and> refresh_disabled (run [ClickRefresh, RefreshResponse (Replied ok (Some (RefreshObj True a n))),
            StoriesResponse (length (pending w)) (Replied True (Some (JsonPage t i)))] w)
      \<and> stories (state (run [ClickRefresh, RefreshResponse (Replied ok (Some (RefreshObj True a n))),
            StoriesResponse (length (pending w)) (Replied True (Some (JsonPage t i)))] w)) = items_or_empty i
      \<and> offset (state (run [ClickRefresh, RefreshResponse (Replied ok (Some (RefreshObj True a n))),
            StoriesResponse (length (pending w)) (Replied True (Some (JsonPage t i))),
            MetaResponse (length (meta_pending w)) m] w)) = 0
      \<and> stories (state (run [ClickRefresh, RefreshResponse (Replied ok (Some (RefreshObj True a n))),
            StoriesResponse (length (pending w)) (Replied True (Some (JsonPage t i))),
            MetaResponse (length (meta_pending w)) m] w)) = items_or_empty i
      \<and> toast (run [ClickRefresh, RefreshResponse (Replied ok (Some (RefreshObj True a n))),
            StoriesResponse (length (pending w)) (Replied True (Some (JsonPage t i))),
            MetaResponse (length (meta_pending w)) m] w) = Some (ToastAdded a n, clock w + 3300)
      \<and> \<not> refresh_disabled (run [ClickRefresh, RefreshResponse (Replied ok (Some (RefreshObj True a n))),
            StoriesResponse (length (pending w)) (Replied True (Some (JsonPage t i))),
            MetaResponse (length (meta_pending w)) m] w)
      \<and> toast (run [ClickRefresh, RefreshResponse (Replied ok (Some (RefreshObj True a n))),
            StoriesResponse (length (pending w)) (Replied True (Some (JsonPage t i))),
            MetaResponse (length (meta_pending w)) m, Elapse 3300] w) = None
      \<and> toast (run [ClickRefresh, RefreshResponse (Replied ok (Some (RefreshObj True a n)))] w) = toast w
      \<and> toast (run [ClickRefresh, RefreshResponse (Replied ok (Some (RefreshObj True a n))),
            StoriesResponse (length (pending w)) (Replied True (Some (JsonPage t i)))] w) = toast w
      \<and> pending (run [ClickRefresh, RefreshResponse (Replied ok (Some (RefreshObj True a n)))] w)
          = pending w @ [(stories_request ((state w)\<lparr>offset := 0\<rparr>), FromRefresh a n)]
      \<and> toast (run [ClickRefresh, RefreshResponse (Replied ok (Some (RefreshObj True a n))),
            StoriesResponse (length (pending w)) (Replied True (Some (JsonPage t i))),
            MetaResponse (length (meta_pending w)) m, Elapse 3299] w) = Some (ToastAdded a n, clock w + 3300)"
      unfolding runs using c(1) s2 s3 s4 e e' m(4) p(5) r(7) c(8) by simp
  qed
  have any: "\<not> refresh_disabled w \<longrightarrow>
      toast (step ClickRefresh w) = toast w
      \<and> state (step ClickRefresh w) = state w
      \<and> state (run [ClickRefresh, RefreshResponse (Replied ok (Some (RefreshObj True a n)))] w)
          = (state w)\<lparr>offset := 0, stories := [], loading := True\<rparr>
      \<and> refresh_disabled (run [ClickRefresh, RefreshResponse (Replied ok (Some (RefreshObj True a n)))] w)
      \<and> toast (run [ClickRefresh, RefreshResponse (Replied ok (Some (RefreshObj True a n)))] w) = toast w"
  proof
    assume d: "\<not> refresh_disabled w"
    define w1 where "w1 = step ClickRefresh w"
    define w2 where "w2 = step (RefreshResponse (Replied ok (Some (RefreshObj True a n)))) w1"
    note c = click_refresh_fields [OF w1_def d]
    note r = refresh_ok_any [OF w2_def c(2)]
    have runs: "step ClickRefresh w = w1"
      "run [ClickRefresh, RefreshResponse (Replied ok (Some (RefreshObj True a n)))] w = w2"
      by (simp_all add: w1_def w2_def)
    show "toast (step ClickRefresh w) = toast w
      \<and> state (step ClickRefresh w) = state w
      \<and> state (run [ClickRefresh, RefreshResponse (Replied ok (Some (RefreshObj True a n)))] w)
          = (state w)\<lparr>offset := 0, stories := [], loading := True\<rparr>
      \<and> refresh_disabled (run [ClickRefresh, RefreshResponse (Replied ok (Some (RefreshObj True a n)))] w)
      \<and> toast (run [ClickRefresh, RefreshResponse (Replied ok (Some (RefreshObj True a n)))] w) = toast w"
      unfolding runs using c r by simp
  qed
  have busy: "\<not> refresh_disabled w \<and> loading (state w) \<longrightarrow>
      issued (run [ClickRefresh, RefreshResponse (Replied ok (Some (RefreshObj True a n)))] w) = issued w
      \<and> pending (run [ClickRefresh, RefreshResponse (Replied ok (Some (RefreshObj True a n)))] w) = pending w
      \<and> meta_pending (run [ClickRefresh, RefreshResponse (Replied ok (Some (RefreshObj True a n)))] w)
          = meta_pending w @ [FromRefresh a n]
      \<and> state (run [ClickRefresh, RefreshResponse (Replied ok (Some (RefreshObj True a n))),
            MetaResponse (length (meta_pending w)) m] w) = (state w)\<lparr>offset := 0, stories := []\<rparr>
      \<and> issued (run [ClickRefresh, RefreshResponse (Replied ok (Some (RefreshObj True a n))),
            MetaResponse (length (meta_pending w)) m] w) = issued w
      \<and> toast (run [ClickRefresh, RefreshResponse (Replied ok (Some (RefreshObj True a n))),
            MetaResponse (length (meta_pending w)) m] w) = Some (ToastAdded a n, clock w + 3300)
      \<and> \<not> refresh_disabled (run [ClickRefresh, RefreshResponse (Replied ok (Some (RefreshObj True a n))),
            MetaResponse (length (meta_pending w)) m] w)
      \<and> toast (run [ClickRefresh, RefreshResponse (Replied ok (Some (RefreshObj True a n))),
            MetaResponse (length (meta_pending w)) m, Elapse 3300] w) = None
      \<and> toast (run [ClickRefresh, RefreshResponse (Replied ok (Some (RefreshObj True a n))),
            MetaResponse (length (meta_pending w)) m, Elapse 3299] w) = Some (ToastAdded a n, clock w + 3300)"
  proof
    assume h: "\<not> refresh_disabled w \<and> loading (state w)"
    define w1 where "w1 = step ClickRefresh w"
    define w2 where "w2 = step (RefreshResponse (Replied ok (Some (RefreshObj True a n)))) w1"
    define w4 where "w4 = step (MetaResponse (length (meta_pending w)) m) w2"
    define w5 where "w5 = step (Elapse 3300) w4"
    have d: "\<not> refresh_disabled w" and l: "loading (state w)" using h by simp_all
    note c = click_refresh_fields [OF w1_def d]
    have l1: "loading (state w1)" using l c(3) by simp
    note r = refresh_ok_any [OF w2_def c(2)]
    note q = refresh_ok_busy [OF w2_def c(2) l1]
    have m2: "meta_pending w2 = meta_pending w @ [FromRefresh a n]"
      using q(3) c(6) by simp
    note m = meta_answer_fields [OF w4_def m2]
    have t: "toast w4 = Some (ToastAdded a n, clock w4 + 3300)"
      using m(2) m(4) by simp
    have e: "toast w5 = None"
      unfolding w5_def using toast_transient [OF t, of 3300] by simp
    define w5' where "w5' = step (Elapse 3299) w4"
    have e': "toast w5' = Some (ToastAdded a n, clock w + 3300)"
      unfolding w5'_def using toast_transient [OF t, of 3299] m(4) r(4) c(8) by simp
    have runs: "run [ClickRefresh, RefreshResponse (Replied ok (Some (RefreshObj True a n)))] w = w2"
      "run [ClickRefresh, RefreshResponse (Replied ok (Some (RefreshObj True a n))),
            MetaResponse (length (meta_pending w)) m] w = w4"
      "run [ClickRefresh, RefreshResponse (Replied ok (Some (RefreshObj True a n))),
            MetaResponse (length (meta_pending w)) m, Elapse 3300] w = w5"
      "run [ClickRefresh, RefreshResponse (Replied ok (Some (RefreshObj True a n))),
            MetaResponse (length (meta_pending w)) m, Elapse 3299] w = w5'"
      by (simp_all add: w1_def w2_def w4_def w5_def w5'_def)
    have s2: "issued w2 = issued w" "pending w2 = pending w"
      "state w2 = (state w)\<lparr>offset := 0, stories := []\<rparr>"
      using q r(1) c l by simp_all
    have s4: "state w4 = (state w)\<lparr>offset := 0, stories := []\<rparr>" "issued w4 = issued w"
      "toast w4 = Some (ToastAdded a n, clock w + 3300)" "\<not> refresh_disabled w4"
      using m s2 r(4) c(8) by simp_all
    show "issued (run [ClickRefresh, RefreshResponse (Replied ok (Some (RefreshObj True a n)))] w) = issued w
      \<and> pending (run [ClickRefresh, RefreshResponse (Replied ok (Some (RefreshObj True a n)))] w) = pending w
      \<and> meta_pending (run [ClickRefresh, RefreshResponse (Replied ok (Some (RefreshObj True a n)))] w)
          = meta_pending w @ [FromRefresh a n]
      \<and> state (run [ClickRefresh, RefreshResponse (Replied ok (Some (RefreshObj True a n))),
            MetaResponse (length (meta_pending w)) m] w) = (state w)\<lparr>offset := 0, stories := []\<rparr>
      \<and> issued (run [ClickRefresh, RefreshResponse (Replied ok (Some (RefreshObj True a n))),
            MetaResponse (length (meta_pending w)) m] w) = issued w
      \<and> toast (run [ClickRefresh, RefreshResponse (Replied ok (Some (RefreshObj True a n))),
            MetaResponse (length (meta_pending w)) m] w) = Some (ToastAdded a n, clock w + 3300)
      \<and> \<not> refresh_disabled (run [ClickRefresh, RefreshResponse (Replied ok (Some (RefreshObj True a n))),
            MetaResponse (length (meta_pending w)) m] w)
      \<and> toast (run [ClickRefresh, RefreshResponse (Replied ok (Some (RefreshObj True a n))),
            MetaResponse (length (meta_pending w)) m, Elapse 3300] w) = None
      \<and> toast (run [ClickRefresh, RefreshResponse (Replied ok (Some (RefreshObj True a n))),
            MetaResponse (length (meta_pending w)) m, Elapse 3299] w) = Some (ToastAdded a n, clock w + 3300)"
      unfolding runs using s2 m2 s4 e e' by simp
  qed
  show ?thesis using failed idle any busy by blast
qed

text \<open>
  A failed and a successful refresh after a first page has loaded, and a successful one
  while "more" is loading.
\<close>

theorem refresh_cycle_witness:
  "\<not> refresh_disabled loaded2 \<and> \<not> loading (state loaded2)
   \<and> state (run [ClickRefresh, RefreshResponse Rejected] loaded2) = state loaded2
   \<and> toast (run [ClickRefresh, RefreshResponse Rejected] loaded2) = Some (ToastRefreshFailed, 3300)
   \<and> \<not> refresh_disabled (run [ClickRefresh, RefreshResponse Rejected] loaded2)
   \<and> map req_offset (issued (run [ClickRefresh, RefreshResponse (Replied True (Some (RefreshObj True (Some 7) (Some 4))))] loaded2)) = [0, 0]
   \<and> toast (run [ClickRefresh, RefreshResponse (Replied True (Some (RefreshObj True (Some 7) (Some 4))))] loaded2) = None
   \<and> toast (run [ClickRefresh, RefreshResponse (Replied True (Some (RefreshObj True (Some 7) (Some 4)))),
          StoriesResponse 0 (Replied True (Some (JsonPage (Some 3) (Some [C, D]))))] loaded2) = None
   \<and> stories (state (run [ClickRefresh, RefreshResponse (Replied True (Some (RefreshObj True (Some 7) (Some 4)))),
          StoriesResponse 0 (Replied True (Some (JsonPage (Some 3) (Some [C, D])))),
          MetaResponse (Suc 0) Rejected] loaded2)) = [C, D]
   \<and> toast (run [ClickRefresh, RefreshResponse (Replied True (Some (RefreshObj True (Some 7) (Some 4)))),
          StoriesResponse 0 (Replied True (Some (JsonPage (Some 3) (Some [C, D])))),
          MetaResponse (Suc 0) Rejected] loaded2) = Some (ToastAdded (Some 7) (Some 4), 3300)
   \<and> \<not> refresh_disabled (run [ClickRefresh, RefreshResponse (Replied True (Some (RefreshObj True (Some 7) (Some 4)))),
          StoriesResponse 0 (Replied True (Some (JsonPage (Some 3) (Some [C, D])))),
          MetaResponse (Suc 0) Rejected] loaded2)
   \<and> loading (state (loadMore loaded5)) \<and> \<not> refresh_disabled (loadMore loaded5)
   \<and> issued (run [ClickRefresh, RefreshResponse (Replied True (Some (RefreshObj True (Some 7) (Some 4))))] (loadMore loaded5)) = issued (loadMore loaded5)
   \<and> refresh_disabled (run [ClickRefresh, RefreshResponse (Replied True (Some (RefreshObj True (Some 7) (Some 4))))] (loadMore loaded5))
   \<and> toast (run [ClickRefresh, RefreshResponse (Replied True (Some (RefreshObj True (Some 7) (Some 4)))),
          MetaResponse (Suc 0) Rejected] (loadMore loaded5)) = Some (ToastAdded (Some 7) (Some 4), 3300)
   \<and> \<not> refresh_disabled (run [ClickRefresh, RefreshResponse (Replied True (Some (RefreshObj True (Some 7) (Some 4)))),
          MetaResponse (Suc 0) Rejected] (loadMore loaded5))"
proof -
  have v: "\<not> refresh_disabled loaded2" "\<not> loading (state loaded2)" "toast loaded2 = None"
    "clock loaded2 = 0"
    "issued loaded2 = [\<lparr>req_category = ''All'', req_q = [], req_limit = 30, req_offset = 0\<rparr>]"
    "stories_request ((state loaded2)\<lparr>offset := 0\<rparr>)
       = \<lparr>req_category = ''All'', req_q = [], req_limit = 30, req_offset = 0\<rparr>"
    by (simp_all only: loaded2_eq loaded_eq) (simp_all add: world0_def state0_def value_defs)
  have n: "length (pending loaded2) = 0" "length (meta_pending loaded2) = Suc 0"
    by (simp_all only: loaded2_eq loaded_eq) (simp_all add: world0_def state0_def)
  define busy where "busy = loadMore loaded5"
  have u: "loading (state busy)" "\<not> refresh_disabled busy" "clock busy = 0"
    unfolding busy_def
    by (simp_all only: loaded5_eq loaded_eq)
       (simp_all add: world0_def state0_def loadMore_def loadStories_enter_def Let_def)
  have k: "length (meta_pending busy) = Suc 0"
    unfolding busy_def
    by (simp only: loaded5_eq loaded_eq)
       (simp add: world0_def state0_def loadMore_def loadStories_enter_def Let_def)
  note idle = refresh_cycle [where w = loaded2 and r = Rejected and ok = True and a = "Some 7"
      and n = "Some 4" and t = "Some 3" and i = "Some [C, D]" and m = Rejected, unfolded n]
  note during = refresh_cycle [where w = busy and r = Rejected and ok = True and a = "Some 7"
      and n = "Some 4" and t = "Some 3" and i = "Some [C, D]" and m = Rejected, unfolded k]
  have f: "state (run [ClickRefresh, RefreshResponse Rejected] loaded2) = state loaded2"
    "toast (run [ClickRefresh, RefreshResponse Rejected] loaded2)
       = Some (ToastRefreshFailed, clock loaded2 + 3300)"
    "\<not> refresh_disabled (run [ClickRefresh, RefreshResponse Rejected] loaded2)"
    using idle v(1) by blast+
  have g: "issued (run [ClickRefresh, RefreshResponse (Replied True (Some (RefreshObj True (Some 7) (Some 4))))] loaded2)
       = issued loaded2 @ [stories_request ((state loaded2)\<lparr>offset := 0\<rparr>)]"
    "toast (run [ClickRefresh, RefreshResponse (Replied True (Some (RefreshObj True (Some 7) (Some 4))))] loaded2) = toast loaded2"
    "toast (run [ClickRefresh, RefreshResponse (Replied True (Some (RefreshObj True (Some 7) (Some 4)))),
          StoriesResponse 0 (Replied True (Some (JsonPage (Some 3) (Some [C, D]))))] loaded2) = toast loaded2"
    "stories (state (run [ClickRefresh, RefreshResponse (Replied True (Some (RefreshObj True (Some 7) (Some 4)))),
          StoriesResponse 0 (Replied True (Some (JsonPage (Some 3) (Some [C, D])))),
          MetaResponse (Suc 0) Rejected] loaded2)) = items_or_empty (Some [C, D])"
    "toast (run [ClickRefresh, RefreshResponse (Replied True (Some (RefreshObj True (Some 7) (Some 4)))),
          StoriesResponse 0 (Replied True (Some (JsonPage (Some 3) (Some [C, D])))),
          MetaResponse (Suc 0) Rejected] loaded2) = Some (ToastAdded (Some 7) (Some 4), clock loaded2 + 3300)"
    "\<not> refresh_disabled (run [ClickRefresh, RefreshResponse (Replied True (Some (RefreshObj True (Some 7) (Some 4)))),
          StoriesResponse 0 (Replied True (Some (JsonPage (Some 3) (Some [C, D])))),
          MetaResponse (Suc 0) Rejected] loaded2)"
    using idle v(1) v(2) by blast+
  have h: "issued (run [ClickRefresh, RefreshResponse (Replied True (Some (RefreshObj True (Some 7) (Some 4))))] busy) = issued busy"
    "refresh_disabled (run [ClickRefresh, RefreshResponse (Replied True (Some (RefreshObj True (Some 7) (Some 4))))] busy)"
    "toast (run [ClickRefresh, RefreshResponse (Replied True (Some (RefreshObj True (Some 7) (Some 4)))),
          MetaResponse (Suc 0) Rejected] busy) = Some (ToastAdded (Some 7) (Some 4), clock busy + 3300)"
    "\<not> refresh_disabled (run [ClickRefresh, RefreshResponse (Replied True (Some (RefreshObj True (Some 7) (Some 4)))),
          MetaResponse (Suc 0) Rejected] busy)"
    using during u(1) u(2) by blast+
  show ?thesis
    unfolding busy_def [symmetric]
    by (simp only: f g h) (simp add: v u items_or_empty_def)
qed

text \<open>
  Claim C8 as stated fails when the POST succeeds during a load: \<open>loadStories()\<close> is
  dropped by the guard, no request for page 0 is sent, and the answer to the earlier
  "more" request (asked at offset 30) becomes the whole list.
\<close>

theorem refresh_reload_dropped:
  "loading (state (step ClickMore loaded5))
   \<and> map req_offset (issued (run [ClickMore, ClickRefresh, refreshed] loaded5)) = [0, 30]
   \<and> pending (run [ClickMore, ClickRefresh, refreshed] loaded5)
       = pending (step ClickMore loaded5)
   \<and> offset (state (run [ClickMore, ClickRefresh, refreshed] loaded5)) = 0
   \<and> stories (state (run [ClickMore, ClickRefresh, refreshed,
                             StoriesResponse 0 (page 5 [C, D])] loaded5)) = [C, D]"
  by (simp only: loaded5_eq loaded_eq)
     (simp add: world0_def state0_def page_def refreshed_def handler_defs fetch_defs value_defs Let_def)

section \<open>Errors at the fetch functions\<close>




section \<open>Rendering blindspots\<close>

lemma render_item_None: "kind item = None \<Longrightarrow> render_item item = Inl TypeError"
  by (simp add: render_item_def)

lemma render_item_Some: "kind item = Some k \<Longrightarrow> \<exists>c. render_item item = Inr c"
  by (simp add: render_item_def)

lemma map_throwing_fail:
  "\<exists>item \<in> set items. kind item = None \<Longrightarrow> map_throwing render_item items = Inl TypeError"
proof (induction items)
  case Nil
  then show ?case by simp
next
  case (Cons x xs)
  show ?case
  proof (cases "kind x")
    case None
    then show ?thesis by (simp add: render_item_None)
  next
    case (Some k)
    then obtain c where c: "render_item x = Inr c" using render_item_Some by blast
    have "\<exists>item \<in> set xs. kind item = None" using Cons.prems Some by auto
    then have "map_throwing render_item xs = Inl TypeError" by (rule Cons.IH)
    then show ?thesis by (simp add: c)
  qed
qed

lemma map_throwing_ok:
  "\<forall>item \<in> set items. kind item \<noteq> None \<Longrightarrow>
   \<exists>cards. map_throwing render_item items = Inr cards \<and> length cards = length items"
proof (induction items)
  case Nil
  then show ?case by simp
next
  case (Cons x xs)
  obtain k where "kind x = Some k" using Cons.prems by auto
  then obtain c where c: "render_item x = Inr c" using render_item_Some by blast
  have "\<forall>item \<in> set xs. kind item \<noteq> None" using Cons.prems by simp
  then obtain cs where "map_throwing render_item xs = Inr cs" "length cs = length xs"
    using Cons.IH by blast
  then show ?case by (simp add: c)
qed

text \<open>
  Claim C9. \<open>renderBlindspots\<close> throws on every list that holds an item without
  \<open>kind\<close>, and returns a view when every item has one. An item with a \<open>kind\<close> renders
  whatever its other fields are, absent ones included: \<open>bias_bar\<close>, \<open>lean\<close>,
  \<open>bias_score\<close> and \<open>title\<close> are defaulted.
\<close>

theorem renderBlindspots_needs_kind:
  "((\<exists>item \<in> set items. kind item = None) \<longrightarrow>
      renderBlindspots items is_loading = Inl TypeError)
   \<and> ((\<forall>item \<in> set items. kind item \<noteq> None) \<longrightarrow>
      (\<exists>v. renderBlindspots items is_loading = Inr v))
   \<and> render_item (item\<lparr>kind := None\<rparr>) = Inl TypeError
   \<and> (\<exists>c. render_item
          \<lparr>story_id = sid, kind = Some k, title = ti, coverage = cv, lean = le,
           bias_score = bs, bias_bar = bb\<rparr> = Inr c)"
proof -
  have a: "(\<exists>item \<in> set items. kind item = None) \<longrightarrow>
      renderBlindspots items is_loading = Inl TypeError"
  proof
    assume h: "\<exists>item \<in> set items. kind item = None"
    then have "items \<noteq> []" by auto
    then show "renderBlindspots items is_loading = Inl TypeError"
      using map_throwing_fail [OF h] by (simp add: renderBlindspots_def)
  qed
  have b: "(\<forall>item \<in> set items. kind item \<noteq> None) \<longrightarrow>
      (\<exists>v. renderBlindspots items is_loading = Inr v)"
  proof
    assume h: "\<forall>item \<in> set items. kind item \<noteq> None"
    obtain cs where "map_throwing render_item items = Inr cs"
      using map_throwing_ok [OF h] by blast
    then show "\<exists>v. renderBlindspots items is_loading = Inr v"
      by (simp add: renderBlindspots_def)
  qed
  have c: "render_item (item\<lparr>kind := None\<rparr>) = Inl TypeError"
    by (simp add: render_item_def)
  have d: "\<exists>c. render_item
          \<lparr>story_id = sid, kind = Some k, title = ti, coverage = cv, lean = le,
           bias_score = bs, bias_bar = bb\<rparr> = Inr c"
    by (simp add: render_item_def)
  show ?thesis using a b c d by blast
qed

text \<open>An item with only its \<open>kind\<close> renders; next to an item without \<open>kind\<close> it throws.\<close>

theorem renderBlindspots_needs_kind_witness:
  "kind bare = Some ''Left Blindspot'' \<and> kind A = None
   \<and> renderBlindspots [bare, A] True = Inl TypeError
   \<and> renderBlindspots [bare] True
       = Inr (BlindspotsCards
           [\<lparr>card_id = None, card_badge = BadgeLeft, card_kind = ''Left Blindspot'',
             card_title = [], card_coverage = None, card_plural = True,
             card_lean = ''Unknown'', card_score = 0, card_segments = []\<rparr>])"
  using renderBlindspots_needs_kind [of "[bare, A]" True A]
    renderBlindspots_needs_kind [of "[bare]" True A]
  by (simp add: bare_def A_def sample_story_def renderBlindspots_def render_item_def
      segments_def num_or_zero_def or_default_def)

section \<open>Theme keys\<close>

text \<open>
  Claim C10. The story list and trending pages read and write the key
  \<open>openground-theme\<close> only, with default \<open>dark\<close>; the blindspots page reads and writes
  the key \<open>theme\<close> only, with default \<open>light\<close>. So a toggle on one side leaves the
  theme the other side starts with as it was, while each side finds its own choice again.
\<close>

theorem theme_keys_apart:
  "initTheme_blindspots (snd (toggleTheme_app (current, ls))) = initTheme_blindspots ls
   \<and> initTheme_app (snd (toggleTheme_blindspots (current, ls))) = initTheme_app ls
   \<and> snd (toggleTheme_app (current, ls)) = ls(''openground-theme'' \<mapsto> next_theme current)
   \<and> snd (toggleTheme_blindspots (current, ls)) = ls(''theme'' \<mapsto> next_theme current)
   \<and> initTheme_app ls = initTheme_app (Map.empty(''openground-theme'' := ls ''openground-theme''))
   \<and> initTheme_blindspots ls = initTheme_blindspots (Map.empty(''theme'' := ls ''theme''))
   \<and> initTheme_app Map.empty = ''dark''
   \<and> initTheme_blindspots Map.empty = ''light''
   \<and> initTheme_app (snd (toggleTheme_app (current, ls))) = next_theme current
   \<and> initTheme_blindspots (snd (toggleTheme_blindspots (current, ls))) = next_theme current"
  by (simp add: initTheme_app_def initTheme_blindspots_def toggleTheme_app_def
      toggleTheme_blindspots_def getItem_or_def next_theme_def or_default_def)

text \<open>Toggling from light on the story list, and from dark on the blindspots page.\<close>

theorem theme_keys_apart_witness:
  "initTheme_app (snd (toggleTheme_app (Some ''light'', Map.empty))) = ''dark''
   \<and> initTheme_blindspots (snd (toggleTheme_app (Some ''light'', Map.empty))) = ''light''
   \<and> initTheme_blindspots (snd (toggleTheme_blindspots (Some ''dark'', Map.empty))) = ''light''
   \<and> initTheme_app (snd (toggleTheme_blindspots (Some ''dark'', Map.empty))) = ''dark''"
proof -
  note L = theme_keys_apart [of "Some ''light''" Map.empty]
  note D = theme_keys_apart [of "Some ''dark''" Map.empty]
  have n: "next_theme (Some ''light'') = ''dark''" "next_theme (Some ''dark'') = ''light''"
    by (simp_all add: next_theme_def)
  have a: "initTheme_app (snd (toggleTheme_app (Some ''light'', Map.empty)))
             = next_theme (Some ''light'')"
    using L by blast
  have b: "initTheme_blindspots (snd (toggleTheme_app (Some ''light'', Map.empty)))
             = initTheme_blindspots Map.empty"
    using L by blast
  have c: "initTheme_blindspots (snd (toggleTheme_blindspots (Some ''dark'', Map.empty)))
             = next_theme (Some ''dark'')"
    using D by blast
  have d: "initTheme_app (snd (toggleTheme_blindspots (Some ''dark'', Map.empty)))
             = initTheme_app Map.empty"
    using D by blast
  have e: "initTheme_app Map.empty = ''dark''" "initTheme_blindspots Map.empty = ''light''"
    using L by blast+
  show ?thesis
    unfolding a b c d e n by simp
qed

end
